theory Spec2Isabelle
  imports Main "HOL-Library.Word"
begin

section \<open>Strings\<close>

text \<open>
  A string of the program is a sequence of UTF-16 code units. \<open>js\<close> writes a string
  whose characters are ASCII.
\<close>

type_synonym jsstring = "16 word list"

definition js :: "string \<Rightarrow> jsstring" where
  "js s = map of_char s"

section \<open>Cell values and rows (src/types.ts)\<close>

text \<open>
  \<^verbatim>\<open>RowData = Record<string, any>\<close>: a row is an object, given by its own
  properties; the column names are the property names. A property holds
  \<^verbatim>\<open>undefined\<close>, \<^verbatim>\<open>null\<close>, a string, a boolean, an array of strings (the
  type of \<^verbatim>\<open>_meta_changed_columns\<close>, which shares the object with the data
  columns), or any other value of the host: a number, a function, an object. The
  engine uses such a value only through \<^verbatim>\<open>String\<close> and through strict
  comparisons that it fails, so the type of these values is a parameter \<open>'v\<close>.

  Two fields are renamed: \<^verbatim>\<open>ComparisonStats.total\<close> is \<open>total_count\<close> and
  \<^verbatim>\<open>ComparisonResult.primaryKey\<close> is \<open>resultPrimaryKey\<close>.
\<close>

datatype 'v jsval = Undefined | Null | Str jsstring | Bool bool | Arr "jsstring list" | Other 'v

type_synonym 'v RowData = "jsstring \<rightharpoonup> 'v jsval"

datatype ChangeType = UNCHANGED | UPDATED | NEW | REMOVED

text \<open>The enum is string-valued: each member evaluates to its own name.\<close>

fun ChangeType_value :: "ChangeType \<Rightarrow> jsstring" where
  "ChangeType_value UNCHANGED = js ''UNCHANGED''"
| "ChangeType_value UPDATED = js ''UPDATED''"
| "ChangeType_value NEW = js ''NEW''"
| "ChangeType_value REMOVED = js ''REMOVED''"

record 'v FileData =
  name :: jsstring
  data :: "'v RowData list"
  columns :: "jsstring list"

record ComparisonStats =
  total_count :: int
  new :: int
  updated :: int
  removed :: int
  unchanged :: int

record ComparisonConfig =
  primaryKey :: jsstring
  ignoreCase :: bool

text \<open>
  \<^verbatim>\<open>ProcessedRow extends RowData\<close>: the three metadata properties live in the
  same object as the data columns, so a processed row is again a \<open>RowData\<close>.
\<close>

type_synonym 'v ProcessedRow = "'v RowData"

record 'v ComparisonResult =
  rows :: "'v ProcessedRow list"
  allColumns :: "jsstring list"
  stats :: ComparisonStats
  resultPrimaryKey :: jsstring

section \<open>The host\<close>

text \<open>
  What the engine takes from the language and is not written in the repository:
  \<^verbatim>\<open>String(v)\<close> for a value \<open>v\<close> of the host (the digits of a number, the text
  of a function), \<^verbatim>\<open>String.prototype.toLowerCase\<close> (the case mapping of
  Unicode), and the properties of \<^verbatim>\<open>Object.prototype\<close>, which every row
  inherits. They are parameters of the engine; every theorem below holds for each
  host. \<^verbatim>\<open>String\<close> returns a string for each value that a cell or
  \<^verbatim>\<open>Object.prototype\<close> holds, so \<open>String_other\<close> is a function.
\<close>

record 'v host =
  String_other :: "'v \<Rightarrow> jsstring"
  toLowerCase :: "jsstring \<Rightarrow> jsstring"
  ObjectPrototype :: "jsstring \<Rightarrow> 'v jsval option"

text \<open>\<^verbatim>\<open>Array.prototype.join\<close> with the default separator, on an array of strings.\<close>

fun join :: "jsstring list \<Rightarrow> jsstring" where
  "join [] = []"
| "join [s] = s"
| "join (s # t # ss) = s @ js '','' @ join (t # ss)"

text \<open>\<^verbatim>\<open>String(val)\<close>.\<close>

fun String_js :: "'v host \<Rightarrow> 'v jsval \<Rightarrow> jsstring" where
  "String_js H Undefined = js ''undefined''"
| "String_js H Null = js ''null''"
| "String_js H (Str s) = s"
| "String_js H (Bool b) = (if b then js ''true'' else js ''false'')"
| "String_js H (Arr ss) = join ss"
| "String_js H (Other v) = String_other H v"

text \<open>
  \<^verbatim>\<open>row[p]\<close>: the own property when the row has one, else the property of
  \<^verbatim>\<open>Object.prototype\<close>, else \<^verbatim>\<open>undefined\<close>.
\<close>

definition getProp :: "'v host \<Rightarrow> 'v RowData \<Rightarrow> jsstring \<Rightarrow> 'v jsval" where
  "getProp H row p =
     (case row p of
        Some v \<Rightarrow> v
      | None \<Rightarrow> (case ObjectPrototype H p of Some v \<Rightarrow> v | None \<Rightarrow> Undefined))"

text \<open>
  The code units that \<^verbatim>\<open>String.prototype.trim\<close> strips: the white space and
  the line terminators of ECMAScript (TAB, LF, VT, FF, CR, SP, NBSP, the other space
  separators of Unicode, LS, PS and ZWNBSP).
\<close>

definition isWhiteSpace :: "16 word \<Rightarrow> bool" where
  "isWhiteSpace c =
     (c \<in> set [0x0009, 0x000A, 0x000B, 0x000C, 0x000D, 0x0020, 0x00A0, 0x1680,
               0x2000, 0x2001, 0x2002, 0x2003, 0x2004, 0x2005, 0x2006, 0x2007,
               0x2008, 0x2009, 0x200A, 0x2028, 0x2029, 0x202F, 0x205F, 0x3000, 0xFEFF])"

definition trim :: "jsstring \<Rightarrow> jsstring" where
  "trim s = rev (dropWhile isWhiteSpace (rev (dropWhile isWhiteSpace s)))"

text \<open>
  A \<^verbatim>\<open>Map\<close> keeps its entries in insertion order. \<^verbatim>\<open>set\<close> on a key that
  is already present replaces the value and leaves the entry where it is; on a new
  key it appends the entry.
\<close>

type_synonym ('k, 'v) Map = "('k \<times> 'v) list"

fun Map_set :: "'k \<Rightarrow> 'v \<Rightarrow> ('k, 'v) Map \<Rightarrow> ('k, 'v) Map" where
  "Map_set k v [] = [(k, v)]"
| "Map_set k v ((k', v') # m) = (if k' = k then (k, v) # m else (k', v') # Map_set k v m)"

definition Map_get :: "('k, 'v) Map \<Rightarrow> 'k \<Rightarrow> 'v option" where
  "Map_get m k = map_of m k"

definition Map_has :: "('k, 'v) Map \<Rightarrow> 'k \<Rightarrow> bool" where
  "Map_has m k = (k \<in> set (map fst m))"

text \<open>
  \<^verbatim>\<open>new Set(xs)\<close> followed by \<^verbatim>\<open>Array.from\<close>: the distinct elements in
  the order in which they are first added.
\<close>

definition Set_add :: "'a list \<Rightarrow> 'a \<Rightarrow> 'a list" where
  "Set_add s x = (if x \<in> set s then s else s @ [x])"

definition Array_from_Set :: "'a list \<Rightarrow> 'a list" where
  "Array_from_Set xs = foldl Set_add [] xs"

section \<open>The comparison engine (src/services/excelService.ts)\<close>

text \<open>
  In the definitions below \<open>H\<close> is the host, and \<open>pk\<close> and \<open>ic\<close> are the constants
  \<^verbatim>\<open>primaryKey\<close> and \<^verbatim>\<open>ignoreCase\<close> that \<^verbatim>\<open>compareDatasets\<close>
  destructures from its configuration.
\<close>

definition normalizeValue :: "'v host \<Rightarrow> 'v jsval \<Rightarrow> bool \<Rightarrow> jsstring" where
  "normalizeValue H val ic =
     (if val = Null \<or> val = Undefined then []
      else let str = trim (String_js H val) in if ic then toLowerCase H str else str)"

text \<open>
  Steps 1 and 2, the body of the \<^verbatim>\<open>forEach\<close> that fills \<^verbatim>\<open>baseMap\<close>
  (and, with the same text, \<^verbatim>\<open>liveMap\<close>).
\<close>

definition indexRow ::
  "'v host \<Rightarrow> jsstring \<Rightarrow> (jsstring, 'v RowData) Map \<Rightarrow> 'v RowData \<Rightarrow> (jsstring, 'v RowData) Map" where
  "indexRow H pk m row =
     (let keyVal = getProp H row pk in
      if keyVal \<noteq> Undefined \<and> keyVal \<noteq> Null \<and> keyVal \<noteq> Str []
      then Map_set (String_js H keyVal) row m else m)"

definition indexData :: "'v host \<Rightarrow> jsstring \<Rightarrow> 'v RowData list \<Rightarrow> (jsstring, 'v RowData) Map" where
  "indexData H pk rs = foldl (indexRow H pk) [] rs"

text \<open>
  The object literal
  \<^verbatim>\<open>{...row, _meta_change_type: t, _meta_changed_columns: cols, _meta_row_id: key}\<close>:
  the spread copies the own properties of the row, and the metadata properties are
  written after it.
\<close>

definition withMeta :: "'v RowData \<Rightarrow> ChangeType \<Rightarrow> jsstring list \<Rightarrow> jsstring \<Rightarrow> 'v ProcessedRow" where
  "withMeta row t cols key =
     row(js ''_meta_change_type'' \<mapsto> Str (ChangeType_value t),
         js ''_meta_changed_columns'' \<mapsto> Arr cols,
         js ''_meta_row_id'' \<mapsto> Str key)"

text \<open>
  The body of \<^verbatim>\<open>allColumns.forEach\<close>; the state is
  \<^verbatim>\<open>(changedCols, isUpdated)\<close>.
\<close>

definition compareColumn ::
  "'v host \<Rightarrow> jsstring \<Rightarrow> bool \<Rightarrow> 'v RowData \<Rightarrow> 'v RowData \<Rightarrow>
   jsstring list \<times> bool \<Rightarrow> jsstring \<Rightarrow> jsstring list \<times> bool" where
  "compareColumn H pk ic baseRow liveRow acc col =
     (if col = pk then acc
      else
        let baseVal = getProp H baseRow col;
            liveVal = getProp H liveRow col;
            normBase = normalizeValue H baseVal ic;
            normLive = normalizeValue H liveVal ic
        in if normBase \<noteq> normLive then (fst acc @ [col], True) else acc)"

definition compareColumns ::
  "'v host \<Rightarrow> jsstring \<Rightarrow> bool \<Rightarrow> jsstring list \<Rightarrow> 'v RowData \<Rightarrow> 'v RowData \<Rightarrow>
   jsstring list \<times> bool" where
  "compareColumns H pk ic allCols baseRow liveRow =
     foldl (compareColumn H pk ic baseRow liveRow) ([], False) allCols"

text \<open>
  Step 4, the body of \<^verbatim>\<open>baseMap.forEach\<close>; the state is
  \<^verbatim>\<open>(processedRows, stats)\<close>. \<open>baseRow ++ liveRow\<close> is the spread
  \<^verbatim>\<open>{...baseRow, ...liveRow}\<close>.
\<close>

definition compareBase ::
  "'v host \<Rightarrow> jsstring \<Rightarrow> bool \<Rightarrow> (jsstring, 'v RowData) Map \<Rightarrow> jsstring list \<Rightarrow>
   'v ProcessedRow list \<times> ComparisonStats \<Rightarrow> jsstring \<times> 'v RowData \<Rightarrow>
   'v ProcessedRow list \<times> ComparisonStats" where
  "compareBase H pk ic liveMap allCols acc entry =
     (let processedRows = fst acc; st = snd acc; key = fst entry; baseRow = snd entry in
      case Map_get liveMap key of
        None \<Rightarrow>
          (processedRows @ [withMeta baseRow REMOVED [] key], st\<lparr>removed := removed st + 1\<rparr>)
      | Some liveRow \<Rightarrow>
          (let cmp = compareColumns H pk ic allCols baseRow liveRow;
               changedCols = fst cmp;
               isUpdated = snd cmp
           in if isUpdated then
                (let mergedRow = baseRow ++ liveRow in
                 (processedRows @ [withMeta mergedRow UPDATED changedCols key],
                  st\<lparr>updated := updated st + 1\<rparr>))
              else
                (processedRows @ [withMeta baseRow UNCHANGED [] key],
                 st\<lparr>unchanged := unchanged st + 1\<rparr>)))"

text \<open>Step 5, the body of \<^verbatim>\<open>liveMap.forEach\<close>.\<close>

definition checkNew ::
  "(jsstring, 'v RowData) Map \<Rightarrow> 'v ProcessedRow list \<times> ComparisonStats \<Rightarrow>
   jsstring \<times> 'v RowData \<Rightarrow> 'v ProcessedRow list \<times> ComparisonStats" where
  "checkNew baseMap acc entry =
     (let processedRows = fst acc; st = snd acc; key = fst entry; liveRow = snd entry in
      if \<not> Map_has baseMap key then
        (processedRows @ [withMeta liveRow NEW [] key], st\<lparr>new := new st + 1\<rparr>)
      else acc)"

definition compareDatasets ::
  "'v host \<Rightarrow> 'v FileData \<Rightarrow> 'v FileData \<Rightarrow> ComparisonConfig \<Rightarrow> 'v ComparisonResult" where
  "compareDatasets H baseFile liveFile config =
     (let pk = primaryKey config;
          ic = ignoreCase config;
          baseMap = indexData H pk (data baseFile);
          liveMap = indexData H pk (data liveFile);
          allCols = Array_from_Set (columns baseFile @ columns liveFile);
          acc0 = ([], \<lparr>total_count = 0, new = 0, updated = 0, removed = 0, unchanged = 0\<rparr>);
          acc1 = foldl (compareBase H pk ic liveMap allCols) acc0 baseMap;
          acc2 = foldl (checkNew baseMap) acc1 liveMap;
          processedRows = fst acc2
      in \<lparr>rows = processedRows,
          allColumns = allCols,
          stats = (snd acc2)\<lparr>total_count := int (length processedRows)\<rparr>,
          resultPrimaryKey = pk\<rparr>)"

section \<open>Reading a processed row\<close>

text \<open>The metadata are own properties of a processed row.\<close>

definition meta_change_type :: "'v ProcessedRow \<Rightarrow> 'v jsval option" where
  "meta_change_type r = r (js ''_meta_change_type'')"

definition meta_changed_columns :: "'v ProcessedRow \<Rightarrow> 'v jsval option" where
  "meta_changed_columns r = r (js ''_meta_changed_columns'')"

definition meta_row_id :: "'v ProcessedRow \<Rightarrow> 'v jsval option" where
  "meta_row_id r = r (js ''_meta_row_id'')"

definition isType :: "ChangeType \<Rightarrow> 'v ProcessedRow \<Rightarrow> bool" where
  "isType t r = (meta_change_type r = Some (Str (ChangeType_value t)))"

section \<open>Notions used in the statements\<close>

text \<open>
  The condition under which a row is indexed, and the key it is indexed under,
  \<^verbatim>\<open>String(row[primaryKey])\<close>.
\<close>

definition validKey :: "'v host \<Rightarrow> jsstring \<Rightarrow> 'v RowData \<Rightarrow> bool" where
  "validKey H pk row =
     (getProp H row pk \<noteq> Undefined \<and> getProp H row pk \<noteq> Null \<and> getProp H row pk \<noteq> Str [])"

definition keyOf :: "'v host \<Rightarrow> jsstring \<Rightarrow> 'v RowData \<Rightarrow> jsstring" where
  "keyOf H pk row = String_js H (getProp H row pk)"

text \<open>The key strings of the valid-keyed rows of a dataset, in row order.\<close>

definition validKeys :: "'v host \<Rightarrow> jsstring \<Rightarrow> 'v RowData list \<Rightarrow> jsstring list" where
  "validKeys H pk rs = map (keyOf H pk) (filter (validKey H pk) rs)"

text \<open>The last valid-keyed row of a dataset that carries the key \<open>k\<close>.\<close>

definition lastRow :: "'v host \<Rightarrow> jsstring \<Rightarrow> 'v RowData list \<Rightarrow> jsstring \<Rightarrow> 'v RowData option" where
  "lastRow H pk rs k = List.find (\<lambda>r. validKey H pk r \<and> keyOf H pk r = k) (rev rs)"

text \<open>
  The columns of \<open>cols\<close>, other than the primary key, on which two rows differ
  after normalization.
\<close>

definition changedColumns ::
  "'v host \<Rightarrow> jsstring \<Rightarrow> bool \<Rightarrow> jsstring list \<Rightarrow> 'v RowData \<Rightarrow> 'v RowData \<Rightarrow> jsstring list" where
  "changedColumns H pk ic cols baseRow liveRow =
     filter (\<lambda>col. col \<noteq> pk \<and>
                normalizeValue H (getProp H baseRow col) ic \<noteq>
                normalizeValue H (getProp H liveRow col) ic) cols"

text \<open>The row that step 4 pushes for an entry of the base index.\<close>

definition baseRowOut ::
  "'v host \<Rightarrow> jsstring \<Rightarrow> bool \<Rightarrow> jsstring list \<Rightarrow> 'v RowData option \<Rightarrow> jsstring \<times> 'v RowData \<Rightarrow>
   'v ProcessedRow" where
  "baseRowOut H pk ic cols live entry =
     (case live of
        None \<Rightarrow> withMeta (snd entry) REMOVED [] (fst entry)
      | Some liveRow \<Rightarrow>
          if changedColumns H pk ic cols (snd entry) liveRow \<noteq> []
          then withMeta (snd entry ++ liveRow) UPDATED
                 (changedColumns H pk ic cols (snd entry) liveRow) (fst entry)
          else withMeta (snd entry) UNCHANGED [] (fst entry))"

text \<open>The row that step 5 pushes for an entry of the live index that the base index lacks.\<close>

definition newRowOut :: "jsstring \<times> 'v RowData \<Rightarrow> 'v ProcessedRow" where
  "newRowOut entry = withMeta (snd entry) NEW [] (fst entry)"

text \<open>The three property names that the metadata occupy in a processed row.\<close>

definition metaNames :: "jsstring list" where
  "metaNames = [js ''_meta_change_type'', js ''_meta_changed_columns'', js ''_meta_row_id'']"

text \<open>Each counter equals the number of emitted rows of its classification.\<close>

definition counts :: "'v ProcessedRow list \<Rightarrow> ComparisonStats \<Rightarrow> bool" where
  "counts rs st =
     (new st = int (length (filter (isType NEW) rs)) \<and>
      updated st = int (length (filter (isType UPDATED) rs)) \<and>
      removed st = int (length (filter (isType REMOVED) rs)) \<and>
      unchanged st = int (length (filter (isType UNCHANGED) rs)))"

text \<open>
  The value of a column after \<^verbatim>\<open>{...baseRow, ...liveRow}\<close>: the live value
  when the live row has the property, the base value otherwise.
\<close>

definition mergedValue :: "'v RowData \<Rightarrow> 'v RowData \<Rightarrow> jsstring \<Rightarrow> 'v jsval option" where
  "mergedValue baseRow liveRow col = (case liveRow col of None \<Rightarrow> baseRow col | Some v \<Rightarrow> Some v)"

text \<open>
  A row whose read of the primary-key column gives \<^verbatim>\<open>undefined\<close>,
  \<^verbatim>\<open>null\<close> or the empty string, and a dataset without such rows.
\<close>

definition emptyKey :: "'v host \<Rightarrow> jsstring \<Rightarrow> 'v RowData \<Rightarrow> bool" where
  "emptyKey H pk row =
     (getProp H row pk = Undefined \<or> getProp H row pk = Null \<or> getProp H row pk = Str [])"

definition withoutEmptyKeys :: "'v host \<Rightarrow> jsstring \<Rightarrow> 'v FileData \<Rightarrow> 'v FileData" where
  "withoutEmptyKeys H pk file = file\<lparr>data := filter (\<lambda>row. \<not> emptyKey H pk row) (data file)\<rparr>"

text \<open>The distinct elements of a list, each at its first occurrence.\<close>

fun firstOccurrences :: "'a list \<Rightarrow> 'a list" where
  "firstOccurrences [] = []"
| "firstOccurrences (x # xs) = x # filter (\<lambda>y. y \<noteq> x) (firstOccurrences xs)"

text \<open>
  The rows of a dataset that its index holds (for each key the last valid-keyed row),
  in dataset row order; and a dataset reduced to these rows.
\<close>

fun indexedRows :: "'v host \<Rightarrow> jsstring \<Rightarrow> 'v RowData list \<Rightarrow> 'v RowData list" where
  "indexedRows H pk [] = []"
| "indexedRows H pk (r # rs) =
     (if validKey H pk r \<and> keyOf H pk r \<notin> set (validKeys H pk rs)
      then r # indexedRows H pk rs else indexedRows H pk rs)"

definition withoutShadowed :: "'v host \<Rightarrow> jsstring \<Rightarrow> 'v FileData \<Rightarrow> 'v FileData" where
  "withoutShadowed H pk file = file\<lparr>data := indexedRows H pk (data file)\<rparr>"

section \<open>An example host and example datasets\<close>

text \<open>
  The host of the closed examples. Its values are two numbers, the functions of
  \<^verbatim>\<open>Object.prototype\<close> and \<^verbatim>\<open>Object.prototype\<close> itself, printed as V8
  prints them. Its \<open>toLowerCase\<close> folds the ASCII letters; the examples hold ASCII
  strings only.
\<close>

datatype exValue = Number1 | Number42 | NativeFunction string | PrototypeObject

definition exString :: "exValue \<Rightarrow> jsstring" where
  "exString v =
     (case v of
        Number1 \<Rightarrow> js ''1''
      | Number42 \<Rightarrow> js ''42''
      | NativeFunction f \<Rightarrow> js ''function '' @ js f @ js ''() { [native code] }''
      | PrototypeObject \<Rightarrow> js ''[object Object]'')"

definition asciiLowerCase :: "jsstring \<Rightarrow> jsstring" where
  "asciiLowerCase s =
     map (\<lambda>c. case map_of (zip (js ''ABCDEFGHIJKLMNOPQRSTUVWXYZ'')
                                   (js ''abcdefghijklmnopqrstuvwxyz'')) c of
                 None \<Rightarrow> c
               | Some l \<Rightarrow> l) s"

definition exPrototype :: "jsstring \<Rightarrow> exValue jsval option" where
  "exPrototype =
     map_of
       [(js ''constructor'', Other (NativeFunction ''Object'')),
        (js ''__defineGetter__'', Other (NativeFunction ''__defineGetter__'')),
        (js ''__defineSetter__'', Other (NativeFunction ''__defineSetter__'')),
        (js ''hasOwnProperty'', Other (NativeFunction ''hasOwnProperty'')),
        (js ''__lookupGetter__'', Other (NativeFunction ''__lookupGetter__'')),
        (js ''__lookupSetter__'', Other (NativeFunction ''__lookupSetter__'')),
        (js ''isPrototypeOf'', Other (NativeFunction ''isPrototypeOf'')),
        (js ''propertyIsEnumerable'', Other (NativeFunction ''propertyIsEnumerable'')),
        (js ''toString'', Other (NativeFunction ''toString'')),
        (js ''valueOf'', Other (NativeFunction ''valueOf'')),
        (js ''__proto__'', Other PrototypeObject),
        (js ''toLocaleString'', Other (NativeFunction ''toLocaleString''))]"

definition exHost :: "exValue host" where
  "exHost = \<lparr>String_other = exString, toLowerCase = asciiLowerCase, ObjectPrototype = exPrototype\<rparr>"

text \<open>
  The base dataset has a row with an empty key; the live dataset has the key \<open>1\<close>
  twice, first as a number and then as a string.
\<close>

definition exBase :: "exValue FileData" where
  "exBase = \<lparr>name = js ''base'',
     data = [[js ''id'' \<mapsto> Str (js ''1''), js ''v'' \<mapsto> Str (js ''x'')],
             [js ''id'' \<mapsto> Str (js ''2''), js ''v'' \<mapsto> Str (js ''B'')],
             [js ''id'' \<mapsto> Str [], js ''v'' \<mapsto> Str (js ''blank'')],
             [js ''id'' \<mapsto> Str (js ''3''), js ''v'' \<mapsto> Str (js ''c'')]],
     columns = [js ''id'', js ''v'']\<rparr>"

definition exLive :: "exValue FileData" where
  "exLive = \<lparr>name = js ''live'',
     data = [[js ''id'' \<mapsto> Other Number1, js ''v'' \<mapsto> Str (js ''old'')],
             [js ''id'' \<mapsto> Str (js ''2''), js ''v'' \<mapsto> Str (js '' B '')],
             [js ''id'' \<mapsto> Str (js ''1''), js ''v'' \<mapsto> Str (js ''y'')],
             [js ''id'' \<mapsto> Str (js ''4''), js ''v'' \<mapsto> Str (js ''d'')]],
     columns = [js ''id'', js ''v'']\<rparr>"

definition exConfig :: ComparisonConfig where
  "exConfig = \<lparr>primaryKey = js ''id'', ignoreCase = False\<rparr>"

text \<open>The first scenario of the specification.\<close>

definition scenarioBase :: "exValue FileData" where
  "scenarioBase = \<lparr>name = js ''base'',
     data = [[js ''id'' \<mapsto> Str (js ''1''), js ''name'' \<mapsto> Str (js ''A'')],
             [js ''id'' \<mapsto> Str (js ''2''), js ''name'' \<mapsto> Str (js ''B'')]],
     columns = [js ''id'', js ''name'']\<rparr>"

definition scenarioLive :: "exValue FileData" where
  "scenarioLive = \<lparr>name = js ''live'',
     data = [[js ''id'' \<mapsto> Str (js ''1''), js ''name'' \<mapsto> Str (js ''A'')],
             [js ''id'' \<mapsto> Str (js ''3''), js ''name'' \<mapsto> Str (js ''C'')]],
     columns = [js ''id'', js ''name'']\<rparr>"

definition scenarioConfig :: ComparisonConfig where
  "scenarioConfig = \<lparr>primaryKey = js ''id'', ignoreCase = True\<rparr>"

text \<open>Inputs on which a claim fails as it is stated.\<close>

definition cxMergeBase :: "exValue FileData" where
  "cxMergeBase = \<lparr>name = js ''base'',
     data = [[js ''id'' \<mapsto> Str (js ''1''), js ''_meta_row_id'' \<mapsto> Str (js ''a'')]],
     columns = [js ''id'', js ''_meta_row_id'']\<rparr>"

definition cxMergeLive :: "exValue FileData" where
  "cxMergeLive = \<lparr>name = js ''live'',
     data = [[js ''id'' \<mapsto> Str (js ''1''), js ''_meta_row_id'' \<mapsto> Str (js ''b'')]],
     columns = [js ''id'', js ''_meta_row_id'']\<rparr>"



definition cxOrderBase :: "exValue FileData" where
  "cxOrderBase = \<lparr>name = js ''base'',
     data = [[js ''id'' \<mapsto> Str (js ''1''), js ''v'' \<mapsto> Str (js ''a'')],
             [js ''id'' \<mapsto> Str (js ''2''), js ''v'' \<mapsto> Str (js ''b'')],
             [js ''id'' \<mapsto> Str (js ''1''), js ''v'' \<mapsto> Str (js ''c'')]],
     columns = [js ''id'', js ''v'']\<rparr>"

definition cxOrderLive :: "exValue FileData" where
  "cxOrderLive = \<lparr>name = js ''live'', data = [], columns = [js ''id'', js ''v'']\<rparr>"

definition cxDupBase :: "exValue FileData" where
  "cxDupBase = \<lparr>name = js ''base'',
     data = [[js ''id'' \<mapsto> Str (js ''k1''), js ''v'' \<mapsto> Str (js ''old'')],
             [js ''id'' \<mapsto> Str (js ''k2''), js ''v'' \<mapsto> Str (js ''x'')],
             [js ''id'' \<mapsto> Str (js ''k1''), js ''v'' \<mapsto> Str (js ''new'')]],
     columns = [js ''id'', js ''v'']\<rparr>"

text \<open>
  The primary key is the column \<open>constructor\<close>; the second row has no value in it.
\<close>

definition cxProtoBase :: "exValue FileData" where
  "cxProtoBase = \<lparr>name = js ''base'',
     data = [[js ''constructor'' \<mapsto> Str (js ''k1''), js ''name'' \<mapsto> Str (js ''A'')],
             [js ''name'' \<mapsto> Str (js ''B'')]],
     columns = [js ''constructor'', js ''name'']\<rparr>"

definition cxProtoLive :: "exValue FileData" where
  "cxProtoLive = \<lparr>name = js ''live'', data = [], columns = [js ''constructor'', js ''name'']\<rparr>"

definition cxProtoConfig :: ComparisonConfig where
  "cxProtoConfig = \<lparr>primaryKey = js ''constructor'', ignoreCase = False\<rparr>"

section \<open>Strings written with \<open>js\<close>\<close>

lemma unat_of_char: "unat (of_char c :: 16 word) = of_char c"
proof -
  have "(of_char c :: 16 word) = of_nat (of_char c)"
    by (simp add: of_nat_of_char)
  then have "unat (of_char c :: 16 word) = (of_char c :: nat) mod 2 ^ 16"
    by (simp add: unat_of_nat)
  moreover have "(of_char c :: nat) < 2 ^ 16"
    by (rule less_trans [OF nat_of_char_less_256]) simp
  ultimately show ?thesis by simp
qed

lemma inj_of_char16: "inj (of_char :: char \<Rightarrow> 16 word)"
proof (rule injI)
  fix c d :: char
  assume "(of_char c :: 16 word) = of_char d"
  then have "unat (of_char c :: 16 word) = unat (of_char d :: 16 word)"
    by simp
  then show "c = d"
    by (simp add: unat_of_char)
qed

lemma js_eq_iff [simp]: "(js s = js t) = (s = t)"
  by (simp add: js_def inj_map_eq_map [OF inj_of_char16])

lemma js_Nil [simp]: "js [] = []"
  by (simp add: js_def)

lemma js_eq_Nil [simp]: "(js s = []) = (s = [])" "([] = js s) = (s = [])"
  by (auto simp: js_def)

section \<open>The indexes\<close>

lemma map_of_Map_set: "map_of (Map_set k v m) = (map_of m)(k \<mapsto> v)"
  by (induction m) (auto simp: fun_eq_iff)

lemma keys_Map_set: "map fst (Map_set k v m) = Set_add (map fst m) k"
  by (induction m) (force simp: Set_add_def)+

lemma find_append:
  "List.find P (xs @ ys) = (case List.find P xs of None \<Rightarrow> List.find P ys | Some x \<Rightarrow> Some x)"
  by (induction xs) simp_all

lemma indexRow_alt:
  "indexRow H pk m row = (if validKey H pk row then Map_set (keyOf H pk row) row m else m)"
  by (simp add: indexRow_def validKey_def keyOf_def Let_def)

lemma keys_foldl_indexRow:
  "map fst (foldl (indexRow H pk) m rs) = foldl Set_add (map fst m) (validKeys H pk rs)"
  unfolding validKeys_def
  by (induction rs arbitrary: m) (simp_all add: indexRow_alt keys_Map_set)

lemma map_of_foldl_indexRow:
  "map_of (foldl (indexRow H pk) m rs) k =
     (case lastRow H pk rs k of None \<Rightarrow> map_of m k | Some r \<Rightarrow> Some r)"
proof (induction rs arbitrary: m)
  case Nil
  show ?case by (simp add: lastRow_def)
next
  case (Cons r rs)
  have step: "map_of (foldl (indexRow H pk) m (r # rs)) k =
          (case lastRow H pk rs k of
             None \<Rightarrow> map_of (indexRow H pk m r) k
           | Some r \<Rightarrow> Some r)"
    using Cons.IH [of "indexRow H pk m r"] by simp
  have here: "map_of (indexRow H pk m r) k =
          (if validKey H pk r \<and> keyOf H pk r = k then Some r else map_of m k)"
    by (simp add: indexRow_alt map_of_Map_set)
  show ?case
    unfolding step here by (auto simp: lastRow_def find_append split: option.splits)
qed

lemma distinct_foldl_Set_add: "distinct s \<Longrightarrow> distinct (foldl Set_add s xs)"
  by (induction xs arbitrary: s) (simp_all add: Set_add_def)

lemma set_foldl_Set_add: "set (foldl Set_add s xs) = set s \<union> set xs"
  by (induction xs arbitrary: s) (auto simp: Set_add_def)

lemma remdups_mid: "x \<in> set zs \<Longrightarrow> remdups (ys @ x # zs) = remdups (ys @ zs)"
  by (induction ys) auto

lemma foldl_Set_add_first:
  "distinct s \<Longrightarrow> foldl Set_add s xs = rev (remdups (rev (s @ xs)))"
proof (induction xs arbitrary: s)
  case Nil
  then show ?case by (simp add: distinct_remdups_id)
next
  case (Cons x xs)
  show ?case
  proof (cases "x \<in> set s")
    case True
    then have "Set_add s x = s"
      by (simp add: Set_add_def)
    then have "foldl Set_add s (x # xs) = rev (remdups (rev (s @ xs)))"
      using Cons.IH [OF Cons.prems] by simp
    also have "remdups (rev (s @ xs)) = remdups (rev (s @ x # xs))"
      using True by (simp add: remdups_mid)
    finally show ?thesis .
  next
    case False
    then have "Set_add s x = s @ [x]" and "distinct (s @ [x])"
      using Cons.prems by (simp_all add: Set_add_def)
    then show ?thesis using Cons.IH [of "s @ [x]"] by simp
  qed
qed

lemma keys_indexData: "map fst (indexData H pk rs) = rev (remdups (rev (validKeys H pk rs)))"
  by (simp add: indexData_def keys_foldl_indexRow foldl_Set_add_first)

lemma distinct_keys_indexData: "distinct (map fst (indexData H pk rs))"
  by (simp add: keys_indexData)

lemma set_keys_indexData: "set (map fst (indexData H pk rs)) = set (validKeys H pk rs)"
  by (simp add: keys_indexData)

lemma Map_get_indexData: "Map_get (indexData H pk rs) k = lastRow H pk rs k"
  by (simp add: Map_get_def indexData_def map_of_foldl_indexRow split: option.splits)

lemma Map_has_indexData: "Map_has (indexData H pk rs) k = (k \<in> set (validKeys H pk rs))"
  using set_keys_indexData [of H pk rs] by (simp add: Map_has_def)

lemma lastRow_Some_iff: "(lastRow H pk rs k \<noteq> None) = (k \<in> set (validKeys H pk rs))"
  by (auto simp: lastRow_def validKeys_def find_None_iff)

lemma entry_indexData:
  "e \<in> set (indexData H pk rs) \<Longrightarrow> lastRow H pk rs (fst e) = Some (snd e)"
proof -
  assume "e \<in> set (indexData H pk rs)"
  then have "(fst e, snd e) \<in> set (indexData H pk rs)"
    by simp
  then have "map_of (indexData H pk rs) (fst e) = Some (snd e)"
    using distinct_keys_indexData [of H pk rs] by (simp only: map_of_eq_Some_iff)
  then show ?thesis
    by (simp add: Map_get_indexData [unfolded Map_get_def])
qed

section \<open>The two passes\<close>

lemma foldl_compareColumn:
  "foldl (compareColumn H pk ic baseRow liveRow) acc cols =
     (fst acc @ changedColumns H pk ic cols baseRow liveRow,
      snd acc \<or> changedColumns H pk ic cols baseRow liveRow \<noteq> [])"
  by (induction cols arbitrary: acc)
     (simp_all add: compareColumn_def changedColumns_def Let_def)

lemma compareColumns_eq:
  "compareColumns H pk ic cols baseRow liveRow =
     (changedColumns H pk ic cols baseRow liveRow, changedColumns H pk ic cols baseRow liveRow \<noteq> [])"
  by (simp add: compareColumns_def foldl_compareColumn)

lemma isType_withMeta [simp]: "isType t (withMeta row t' cols key) = (t = t')"
  by (cases t; cases t') (simp_all add: isType_def meta_change_type_def withMeta_def)

lemma meta_row_id_withMeta [simp]: "meta_row_id (withMeta row t cols key) = Some (Str key)"
  by (simp add: meta_row_id_def withMeta_def)

lemma meta_changed_columns_withMeta [simp]:
  "meta_changed_columns (withMeta row t cols key) = Some (Arr cols)"
  by (simp add: meta_changed_columns_def withMeta_def)

lemma compareBase_eq:
  "compareBase H pk ic liveMap cols acc entry =
     (fst acc @ [baseRowOut H pk ic cols (Map_get liveMap (fst entry)) entry],
      (case Map_get liveMap (fst entry) of
         None \<Rightarrow> (snd acc)\<lparr>removed := removed (snd acc) + 1\<rparr>
       | Some liveRow \<Rightarrow>
           if changedColumns H pk ic cols (snd entry) liveRow \<noteq> []
           then (snd acc)\<lparr>updated := updated (snd acc) + 1\<rparr>
           else (snd acc)\<lparr>unchanged := unchanged (snd acc) + 1\<rparr>))"
  by (simp add: compareBase_def baseRowOut_def compareColumns_eq Let_def split: option.splits)

lemma fst_foldl_compareBase:
  "fst (foldl (compareBase H pk ic liveMap cols) acc m) =
     fst acc @ map (\<lambda>e. baseRowOut H pk ic cols (Map_get liveMap (fst e)) e) m"
  by (induction m arbitrary: acc) (simp_all add: compareBase_eq)

lemma fst_foldl_checkNew:
  "fst (foldl (checkNew baseMap) acc m) =
     fst acc @ map newRowOut (filter (\<lambda>e. \<not> Map_has baseMap (fst e)) m)"
  by (induction m arbitrary: acc) (simp_all add: checkNew_def newRowOut_def Let_def)

lemma counts_compareBase:
  "counts (fst acc) (snd acc) \<Longrightarrow>
   counts (fst (compareBase H pk ic liveMap cols acc entry)) (snd (compareBase H pk ic liveMap cols acc entry))"
  by (simp add: compareBase_eq counts_def baseRowOut_def split: option.splits)

lemma counts_foldl_compareBase:
  "counts (fst acc) (snd acc) \<Longrightarrow>
   counts (fst (foldl (compareBase H pk ic liveMap cols) acc m))
          (snd (foldl (compareBase H pk ic liveMap cols) acc m))"
  by (induction m arbitrary: acc) (simp_all add: counts_compareBase)

lemma counts_checkNew:
  "counts (fst acc) (snd acc) \<Longrightarrow>
   counts (fst (checkNew baseMap acc entry)) (snd (checkNew baseMap acc entry))"
  by (simp add: checkNew_def counts_def Let_def)

lemma counts_foldl_checkNew:
  "counts (fst acc) (snd acc) \<Longrightarrow>
   counts (fst (foldl (checkNew baseMap) acc m)) (snd (foldl (checkNew baseMap) acc m))"
  by (induction m arbitrary: acc) (simp_all add: counts_checkNew)

lemma rows_compareDatasets:
  "rows (compareDatasets H baseFile liveFile config) =
     map (\<lambda>e. baseRowOut H (primaryKey config) (ignoreCase config)
                 (Array_from_Set (columns baseFile @ columns liveFile))
                 (lastRow H (primaryKey config) (data liveFile) (fst e)) e)
         (indexData H (primaryKey config) (data baseFile)) @
     map newRowOut
         (filter (\<lambda>e. fst e \<notin> set (validKeys H (primaryKey config) (data baseFile)))
            (indexData H (primaryKey config) (data liveFile)))"
  by (simp add: compareDatasets_def Let_def fst_foldl_checkNew fst_foldl_compareBase
      Map_get_indexData Map_has_indexData)

lemma counts_compareDatasets:
  "counts (rows (compareDatasets H baseFile liveFile config)) (stats (compareDatasets H baseFile liveFile config))"
proof -
  let ?st0 = "\<lparr>total_count = 0, new = 0, updated = 0, removed = 0, unchanged = 0\<rparr>"
  have "counts (fst ([], ?st0)) (snd ([], ?st0))"
    by (simp add: counts_def)
  from counts_foldl_checkNew [OF counts_foldl_compareBase [OF this]]
  show ?thesis
    by (simp add: compareDatasets_def Let_def counts_def)
qed

section \<open>The shape of the emitted rows\<close>

lemma row_shape:
  assumes "r \<in> set (rows (compareDatasets H baseFile liveFile config))"
  shows "(\<exists>key baseRow. lastRow H (primaryKey config) (data baseFile) key = Some baseRow \<and>
            r = baseRowOut H (primaryKey config) (ignoreCase config)
                  (Array_from_Set (columns baseFile @ columns liveFile))
                  (lastRow H (primaryKey config) (data liveFile) key) (key, baseRow)) \<or>
         (\<exists>key liveRow. lastRow H (primaryKey config) (data baseFile) key = None \<and>
            lastRow H (primaryKey config) (data liveFile) key = Some liveRow \<and>
            r = newRowOut (key, liveRow))"
proof -
  let ?pk = "primaryKey config"
  from assms consider
    (base) e where "e \<in> set (indexData H ?pk (data baseFile))"
      "r = baseRowOut H ?pk (ignoreCase config) (Array_from_Set (columns baseFile @ columns liveFile))
             (lastRow H ?pk (data liveFile) (fst e)) e"
  | (live) e where "e \<in> set (indexData H ?pk (data liveFile))"
      "fst e \<notin> set (validKeys H ?pk (data baseFile))" "r = newRowOut e"
    unfolding rows_compareDatasets by auto
  then show ?thesis
  proof cases
    case base
    from entry_indexData [OF base(1)] base(2) show ?thesis
      by (cases e) auto
  next
    case live
    from live(2) have "lastRow H ?pk (data baseFile) (fst e) = None"
      using lastRow_Some_iff [of H ?pk "data baseFile" "fst e"] by simp
    with entry_indexData [OF live(1)] live(3) show ?thesis
      by (cases e) auto
  qed
qed

lemma typed_rows:
  "r \<in> set (rows (compareDatasets H baseFile liveFile config)) \<Longrightarrow> \<exists>t. isType t r"
  by (auto simp: rows_compareDatasets baseRowOut_def newRowOut_def split: option.splits)

lemma isType_unique: "isType t r \<Longrightarrow> isType t' r \<Longrightarrow> t = t'"
  by (cases t; cases t') (simp_all add: isType_def)

lemma length_by_type:
  "(\<And>r. r \<in> set rs \<Longrightarrow> \<exists>t. isType t r) \<Longrightarrow>
   length rs = length (filter (isType NEW) rs) + length (filter (isType UPDATED) rs) +
               length (filter (isType REMOVED) rs) + length (filter (isType UNCHANGED) rs)"
proof (induction rs)
  case Nil
  show ?case by simp
next
  case (Cons r rs)
  from Cons.prems [of r] obtain t where t: "isType t r" by auto
  have others: "\<And>t'. isType t' r = (t' = t)"
    using t isType_unique by blast
  from Cons.IH Cons.prems show ?case
    by (cases t) (simp_all add: others)
qed

section \<open>Index entries and the column union\<close>


lemma find_SomeD: "List.find P xs = Some x \<Longrightarrow> P x \<and> x \<in> set xs"
  by (induction xs) (auto split: if_splits)

lemma lastRow_SomeD:
  "lastRow H pk rs k = Some r \<Longrightarrow> validKey H pk r \<and> keyOf H pk r = k \<and> r \<in> set rs"
  using find_SomeD [of "\<lambda>r. validKey H pk r \<and> keyOf H pk r = k" "rev rs" r]
  by (simp add: lastRow_def)


lemma set_Array_from_Set: "set (Array_from_Set xs) = set xs"
  by (simp add: Array_from_Set_def set_foldl_Set_add)

lemma allColumns_compareDatasets:
  "allColumns (compareDatasets H baseFile liveFile config) =
     Array_from_Set (columns baseFile @ columns liveFile)"
  by (simp add: compareDatasets_def Let_def)

section \<open>Properties of an emitted row\<close>

lemma withMeta_other:
  "col \<notin> set metaNames \<Longrightarrow> withMeta row t cols key col = row col"
  by (simp add: withMeta_def metaNames_def)

lemma getProp_own: "row p = Some v \<Longrightarrow> getProp H row p = v"
  by (simp add: getProp_def)





section \<open>The rows of one key\<close>

lemma lastRow_None_iff: "(lastRow H pk rs k = None) = (k \<notin> set (validKeys H pk rs))"
  using lastRow_Some_iff [of H pk rs k] by auto

lemma lastRow_Some_ex: "(\<exists>row. lastRow H pk rs k = Some row) = (k \<in> set (validKeys H pk rs))"
  using lastRow_Some_iff [of H pk rs k] by simp

lemma meta_row_id_baseRowOut:
  "meta_row_id (baseRowOut H pk ic cols live e) = Some (Str (fst e))"
  by (simp add: baseRowOut_def split: option.splits)

lemma meta_row_id_newRowOut: "meta_row_id (newRowOut e) = Some (Str (fst e))"
  by (simp add: newRowOut_def)

lemma filter_key_distinct:
  "distinct (map fst m) \<Longrightarrow>
   filter (\<lambda>e. fst e = k) m = (case map_of m k of None \<Rightarrow> [] | Some v \<Rightarrow> [(k, v)])"
proof (induction m)
  case Nil
  show ?case by simp
next
  case (Cons e m)
  show ?case
  proof (cases "fst e = k")
    case True
    with Cons.prems have "k \<notin> fst ` set m" by auto
    then have "filter (\<lambda>e. fst e = k) m = []"
      by (auto simp: filter_empty_conv)
    with True show ?thesis by (cases e) simp
  next
    case False
    with Cons show ?thesis by (cases e) simp
  qed
qed

lemma filter_key_indexData:
  "filter (\<lambda>e. fst e = k) (indexData H pk rs) =
     (case lastRow H pk rs k of None \<Rightarrow> [] | Some row \<Rightarrow> [(k, row)])"
  using filter_key_distinct [OF distinct_keys_indexData [of H pk rs], of k]
  by (simp add: Map_get_indexData [unfolded Map_get_def])

lemma rows_with_key:
  "filter (\<lambda>r. meta_row_id r = Some (Str k)) (rows (compareDatasets H baseFile liveFile config)) =
     (case lastRow H (primaryKey config) (data baseFile) k of
        Some baseRow \<Rightarrow>
          [baseRowOut H (primaryKey config) (ignoreCase config)
             (Array_from_Set (columns baseFile @ columns liveFile))
             (lastRow H (primaryKey config) (data liveFile) k) (k, baseRow)]
      | None \<Rightarrow>
          (case lastRow H (primaryKey config) (data liveFile) k of
             Some liveRow \<Rightarrow> [newRowOut (k, liveRow)]
           | None \<Rightarrow> []))"
proof -
  let ?pk = "primaryKey config"
  let ?f = "\<lambda>e. baseRowOut H ?pk (ignoreCase config)
             (Array_from_Set (columns baseFile @ columns liveFile))
             (lastRow H ?pk (data liveFile) (fst e)) e"
  let ?B = "indexData H ?pk (data baseFile)" and ?L = "indexData H ?pk (data liveFile)"
  have base: "filter (\<lambda>r. meta_row_id r = Some (Str k)) (map ?f ?B) =
                map ?f (filter (\<lambda>e. fst e = k) ?B)"
    by (simp add: filter_map comp_def meta_row_id_baseRowOut)
  have live: "filter (\<lambda>r. meta_row_id r = Some (Str k))
                (map newRowOut (filter (\<lambda>e. fst e \<notin> set (validKeys H ?pk (data baseFile))) ?L)) =
              (if k \<in> set (validKeys H ?pk (data baseFile)) then []
               else map newRowOut (filter (\<lambda>e. fst e = k) ?L))"
    by (auto simp: filter_map comp_def meta_row_id_newRowOut filter_empty_conv
        intro!: arg_cong [where f = "map newRowOut"] filter_cong)
  have mem: "(k \<in> set (validKeys H ?pk (data baseFile))) = (lastRow H ?pk (data baseFile) k \<noteq> None)"
    by (simp add: lastRow_Some_ex)
  show ?thesis
    unfolding rows_compareDatasets filter_append base live mem filter_key_indexData
    by (simp split: option.splits)
qed

lemma lastRow_is_last:
  assumes "rs = pre @ row # post" and "validKey H pk row"
    and "keyOf H pk row \<notin> set (validKeys H pk post)"
  shows "lastRow H pk rs (keyOf H pk row) = Some row"
proof -
  from assms(3) have "lastRow H pk post (keyOf H pk row) = None"
    by (simp add: lastRow_None_iff)
  with assms(1,2) show ?thesis
    by (simp add: lastRow_def find_append)
qed

section \<open>Rows with an empty key\<close>

lemma validKey_emptyKey: "validKey H pk row = (\<not> emptyKey H pk row)"
  by (simp add: validKey_def emptyKey_def)

lemma indexRow_emptyKey: "emptyKey H pk row \<Longrightarrow> indexRow H pk m row = m"
  by (auto simp: indexRow_def emptyKey_def)

lemma foldl_indexRow_filter:
  "foldl (indexRow H pk) m (filter (\<lambda>row. \<not> emptyKey H pk row) rs) = foldl (indexRow H pk) m rs"
  by (induction rs arbitrary: m) (simp_all add: indexRow_emptyKey)

lemma indexData_filter:
  "indexData H pk (filter (\<lambda>row. \<not> emptyKey H pk row) rs) = indexData H pk rs"
  by (simp add: indexData_def foldl_indexRow_filter)

lemma empty_key_exclusion:
  "indexData H pk (filter (\<lambda>row. \<not> emptyKey H pk row) rs) = indexData H pk rs \<and>
   list_all (\<lambda>e. \<not> emptyKey H pk (snd e)) (indexData H pk rs) \<and>
   compareDatasets H (withoutEmptyKeys H (primaryKey config) baseFile)
     (withoutEmptyKeys H (primaryKey config) liveFile) config =
   compareDatasets H baseFile liveFile config"
proof -
  have "list_all (\<lambda>e. \<not> emptyKey H pk (snd e)) (indexData H pk rs)"
    unfolding list_all_iff
  proof
    fix e assume "e \<in> set (indexData H pk rs)"
    from lastRow_SomeD [OF entry_indexData [OF this]] show "\<not> emptyKey H pk (snd e)"
      by (simp add: validKey_emptyKey)
  qed
  then show ?thesis
    by (simp add: indexData_filter compareDatasets_def withoutEmptyKeys_def)
qed

section \<open>White-space stripping\<close>

lemma trim_decomposition:
  "\<exists>pre post. s = pre @ trim s @ post \<and> list_all isWhiteSpace pre \<and> list_all isWhiteSpace post"
proof (intro exI conjI)
  let ?t = "dropWhile isWhiteSpace s"
  have "?t = trim s @ rev (takeWhile isWhiteSpace (rev ?t))"
    unfolding trim_def by (metis rev_append rev_rev_ident takeWhile_dropWhile_id)
  then have "takeWhile isWhiteSpace s @ ?t =
             takeWhile isWhiteSpace s @ trim s @ rev (takeWhile isWhiteSpace (rev ?t))"
    by simp
  then show "s = takeWhile isWhiteSpace s @ trim s @ rev (takeWhile isWhiteSpace (rev ?t))"
    by simp
  show "list_all isWhiteSpace (takeWhile isWhiteSpace s)"
    by (auto simp: list_all_iff dest: set_takeWhileD)
  show "list_all isWhiteSpace (rev (takeWhile isWhiteSpace (rev ?t)))"
    by (auto simp: list_all_iff dest: set_takeWhileD)
qed

lemma trim_ends:
  assumes ne: "trim s \<noteq> []"
  shows "\<not> isWhiteSpace (hd (trim s)) \<and> \<not> isWhiteSpace (last (trim s))"
proof -
  let ?t = "dropWhile isWhiteSpace s" and ?u = "dropWhile isWhiteSpace (rev (dropWhile isWhiteSpace s))"
  from ne have u: "?u \<noteq> []" by (simp add: trim_def)
  then have l: "\<not> isWhiteSpace (hd ?u)" by (rule hd_dropWhile)
  have t: "?t \<noteq> []"
  proof
    assume "?t = []"
    then have "?u = []" by (simp only: rev.simps(1) dropWhile.simps(1))
    with u show False by blast
  qed
  then have h: "\<not> isWhiteSpace (hd ?t)" by (rule hd_dropWhile)
  have "rev ?t = takeWhile isWhiteSpace (rev ?t) @ ?u" by simp
  then have "?t = rev ?u @ rev (takeWhile isWhiteSpace (rev ?t))"
    by (metis rev_append rev_rev_ident)
  with u have "hd ?t = hd (rev ?u)" by (metis hd_append2 rev_is_Nil_conv)
  with h l u show ?thesis
    by (simp add: trim_def last_rev)
qed

lemma dropWhile_all: "list_all P xs \<Longrightarrow> dropWhile P (xs @ ys) = dropWhile P ys"
  by (induction xs) simp_all

lemma dropWhile_head: "ys \<noteq> [] \<Longrightarrow> \<not> P (hd ys) \<Longrightarrow> dropWhile P ys = ys"
  by (cases ys) simp_all

lemma trim_unique:
  assumes s: "s = pre @ t @ post"
    and pre: "list_all isWhiteSpace pre" and post: "list_all isWhiteSpace post"
    and t: "t = [] \<or> \<not> isWhiteSpace (hd t) \<and> \<not> isWhiteSpace (last t)"
  shows "trim s = t"
proof (cases "t = []")
  case True
  with s pre post have "list_all isWhiteSpace s" by simp
  then have "dropWhile isWhiteSpace s = []" by (simp add: list_all_iff)
  then have "trim s = []" by (simp only: trim_def rev.simps(1) dropWhile.simps(1))
  with True show ?thesis by (simp only:)
next
  case False
  with t have h: "\<not> isWhiteSpace (hd t)" and l: "\<not> isWhiteSpace (last t)" by simp_all
  from False h have "dropWhile isWhiteSpace (t @ post) = t @ post"
    by (intro dropWhile_head) simp_all
  with s pre have 1: "dropWhile isWhiteSpace s = t @ post"
    by (simp add: dropWhile_all)
  from post have "list_all isWhiteSpace (rev post)" by (simp add: list_all_iff)
  then have "dropWhile isWhiteSpace (rev post @ rev t) = dropWhile isWhiteSpace (rev t)"
    by (rule dropWhile_all)
  also from False l have "\<dots> = rev t"
    by (intro dropWhile_head) (simp_all add: hd_rev)
  finally show ?thesis
    by (simp add: trim_def 1)
qed

lemma normalizeValue_value:
  "v \<noteq> Undefined \<Longrightarrow> v \<noteq> Null \<Longrightarrow>
   normalizeValue H v ic = (if ic then toLowerCase H (trim (String_js H v)) else trim (String_js H v))"
  by (simp add: normalizeValue_def)

section \<open>The order of the keys\<close>

lemma remdups_snoc: "remdups (xs @ [x]) = filter (\<lambda>y. y \<noteq> x) (remdups xs) @ [x]"
  by (induction xs) auto

lemma first_occurrences_remdups: "rev (remdups (rev xs)) = firstOccurrences xs"
  by (induction xs) (simp_all add: remdups_snoc rev_filter)

lemma firstOccurrences_distinct: "distinct xs \<Longrightarrow> firstOccurrences xs = xs"
proof (induction xs)
  case Nil
  show ?case by simp
next
  case (Cons x xs)
  then have "filter (\<lambda>y. y \<noteq> x) xs = xs"
    by (auto simp: filter_id_conv)
  with Cons show ?case by simp
qed

lemma set_firstOccurrences: "set (firstOccurrences xs) = set xs"
  by (simp add: first_occurrences_remdups [symmetric])

lemma keys_indexedRows: "map (keyOf H pk) (indexedRows H pk rs) = remdups (validKeys H pk rs)"
  by (induction rs) (simp_all add: validKeys_def)

lemma keys_indexData_first: "map fst (indexData H pk rs) = firstOccurrences (validKeys H pk rs)"
  by (simp add: keys_indexData first_occurrences_remdups)

lemma isType_baseRowOut:
  "isType t (baseRowOut H pk ic cols live e) =
     (t = (case live of
             None \<Rightarrow> REMOVED
           | Some liveRow \<Rightarrow>
               if changedColumns H pk ic cols (snd e) liveRow \<noteq> [] then UPDATED else UNCHANGED))"
  by (simp add: baseRowOut_def split: option.splits)

lemma isType_newRowOut: "isType t (newRowOut e) = (t = NEW)"
  by (simp add: newRowOut_def)

lemma ids_compareDatasets:
  "map meta_row_id (rows (compareDatasets H baseFile liveFile config)) =
     map (\<lambda>k. Some (Str k))
       (firstOccurrences (validKeys H (primaryKey config) (data baseFile)) @
        filter (\<lambda>k. k \<notin> set (validKeys H (primaryKey config) (data baseFile)))
          (firstOccurrences (validKeys H (primaryKey config) (data liveFile))))"
proof -
  let ?pk = "primaryKey config"
  have "map meta_row_id (rows (compareDatasets H baseFile liveFile config)) =
          map (\<lambda>k. Some (Str k))
            (map fst (indexData H ?pk (data baseFile)) @
             filter (\<lambda>k. k \<notin> set (validKeys H ?pk (data baseFile)))
               (map fst (indexData H ?pk (data liveFile))))"
    by (simp add: rows_compareDatasets comp_def meta_row_id_baseRowOut meta_row_id_newRowOut
        filter_map)
  then show ?thesis
    by (simp only: keys_indexData_first)
qed

section \<open>The rows of one classification\<close>

lemma filter_NEW_rows:
  "filter (isType NEW) (rows (compareDatasets H baseFile liveFile config)) =
     map newRowOut
       (filter (\<lambda>e. fst e \<notin> set (validKeys H (primaryKey config) (data baseFile)))
          (indexData H (primaryKey config) (data liveFile)))"
  by (simp add: rows_compareDatasets filter_map comp_def isType_baseRowOut isType_newRowOut
      split: option.splits)

lemma filter_REMOVED_rows:
  "filter (isType REMOVED) (rows (compareDatasets H baseFile liveFile config)) =
     map (\<lambda>e. withMeta (snd e) REMOVED [] (fst e))
       (filter (\<lambda>e. lastRow H (primaryKey config) (data liveFile) (fst e) = None)
          (indexData H (primaryKey config) (data baseFile)))"
proof -
  let ?pk = "primaryKey config"
  let ?f = "\<lambda>e. baseRowOut H ?pk (ignoreCase config)
             (Array_from_Set (columns baseFile @ columns liveFile))
             (lastRow H ?pk (data liveFile) (fst e)) e"
  have P: "(isType REMOVED \<circ> ?f) = (\<lambda>e. lastRow H ?pk (data liveFile) (fst e) = None)"
    by (auto simp: fun_eq_iff isType_baseRowOut split: option.splits)
  have "filter (isType REMOVED) (rows (compareDatasets H baseFile liveFile config)) =
          map ?f (filter (\<lambda>e. lastRow H ?pk (data liveFile) (fst e) = None)
                    (indexData H ?pk (data baseFile)))"
    unfolding rows_compareDatasets filter_append filter_map P
    by (simp add: comp_def isType_newRowOut)
  also have "\<dots> = map (\<lambda>e. withMeta (snd e) REMOVED [] (fst e))
                    (filter (\<lambda>e. lastRow H ?pk (data liveFile) (fst e) = None)
                       (indexData H ?pk (data baseFile)))"
    by (rule map_cong) (simp_all add: baseRowOut_def)
  finally show ?thesis .
qed

lemma matched_rows:
  "map (\<lambda>r. isType UPDATED r \<or> isType UNCHANGED r) (rows (compareDatasets H baseFile liveFile config)) =
     map (\<lambda>e. lastRow H (primaryKey config) (data liveFile) (fst e) \<noteq> None)
       (indexData H (primaryKey config) (data baseFile)) @
     map (\<lambda>e. False)
       (filter (\<lambda>e. fst e \<notin> set (validKeys H (primaryKey config) (data baseFile)))
          (indexData H (primaryKey config) (data liveFile)))"
  by (auto simp: rows_compareDatasets comp_def isType_baseRowOut isType_newRowOut
      split: option.splits)

section \<open>Shadowed rows\<close>

lemma lastRow_Cons:
  "lastRow H pk (r # rs) k =
     (case lastRow H pk rs k of
        Some x \<Rightarrow> Some x
      | None \<Rightarrow> if validKey H pk r \<and> keyOf H pk r = k then Some r else None)"
  by (simp add: lastRow_def find_append split: option.splits)

lemma lastRow_indexedRows: "lastRow H pk (indexedRows H pk rs) k = lastRow H pk rs k"
proof (induction rs)
  case Nil
  show ?case by simp
next
  case (Cons r rs)
  show ?case
  proof (cases "validKey H pk r \<and> keyOf H pk r \<notin> set (validKeys H pk rs)")
    case True
    with Cons show ?thesis by (simp add: lastRow_Cons)
  next
    case False
    then have "lastRow H pk rs k = None \<Longrightarrow> \<not> (validKey H pk r \<and> keyOf H pk r = k)"
      by (auto simp: lastRow_None_iff)
    with False Cons show ?thesis
      by (auto simp: lastRow_Cons split: option.splits)
  qed
qed

lemma set_indexData: "set (indexData H pk rs) = {e. lastRow H pk rs (fst e) = Some (snd e)}"
proof (intro set_eqI iffI)
  fix e assume "e \<in> set (indexData H pk rs)"
  then show "e \<in> {e. lastRow H pk rs (fst e) = Some (snd e)}"
    by (simp add: entry_indexData)
next
  fix e assume "e \<in> {e. lastRow H pk rs (fst e) = Some (snd e)}"
  then have "map_of (indexData H pk rs) (fst e) = Some (snd e)"
    by (simp add: Map_get_indexData [unfolded Map_get_def])
  from map_of_SomeD [OF this] show "e \<in> set (indexData H pk rs)"
    by simp
qed

lemma set_indexData_indexedRows: "set (indexData H pk (indexedRows H pk rs)) = set (indexData H pk rs)"
  by (simp add: set_indexData lastRow_indexedRows)

lemma set_validKeys_indexedRows: "set (validKeys H pk (indexedRows H pk rs)) = set (validKeys H pk rs)"
  by (auto simp: lastRow_Some_ex [symmetric] lastRow_indexedRows)

lemma rows_set_withoutShadowed:
  "set (rows (compareDatasets H (withoutShadowed H (primaryKey config) baseFile)
                (withoutShadowed H (primaryKey config) liveFile) config)) =
   set (rows (compareDatasets H baseFile liveFile config))"
  by (simp add: rows_compareDatasets withoutShadowed_def lastRow_indexedRows
      set_indexData_indexedRows set_validKeys_indexedRows)

section \<open>Evaluating the engine on the examples\<close>

lemmas engine_defs =
  compareDatasets_def indexData_def indexRow_def compareBase_def compareColumns_def
  compareColumn_def checkNew_def normalizeValue_def getProp_def trim_def isWhiteSpace_def
  Map_get_def Map_has_def Array_from_Set_def Set_add_def Let_def
  exHost_def exString_def exPrototype_def asciiLowerCase_def js_def

lemma ex_rows:
  "rows (compareDatasets exHost exBase exLive exConfig) =
     [withMeta ([js ''id'' \<mapsto> Str (js ''1''), js ''v'' \<mapsto> Str (js ''x'')] ++ [js ''id'' \<mapsto> Str (js ''1''), js ''v'' \<mapsto> Str (js ''y'')])
        UPDATED [js ''v''] (js ''1''),
      withMeta [js ''id'' \<mapsto> Str (js ''2''), js ''v'' \<mapsto> Str (js ''B'')] UNCHANGED [] (js ''2''),
      withMeta [js ''id'' \<mapsto> Str (js ''3''), js ''v'' \<mapsto> Str (js ''c'')] REMOVED [] (js ''3''),
      withMeta [js ''id'' \<mapsto> Str (js ''4''), js ''v'' \<mapsto> Str (js ''d'')] NEW [] (js ''4'')]"
  by (simp add: exBase_def exLive_def exConfig_def engine_defs)

lemma scenario_result:
  "rows (compareDatasets exHost scenarioBase scenarioLive scenarioConfig) =
     [withMeta [js ''id'' \<mapsto> Str (js ''1''), js ''name'' \<mapsto> Str (js ''A'')] UNCHANGED [] (js ''1''),
      withMeta [js ''id'' \<mapsto> Str (js ''2''), js ''name'' \<mapsto> Str (js ''B'')] REMOVED [] (js ''2''),
      withMeta [js ''id'' \<mapsto> Str (js ''3''), js ''name'' \<mapsto> Str (js ''C'')] NEW [] (js ''3'')] \<and>
   stats (compareDatasets exHost scenarioBase scenarioLive scenarioConfig) =
     \<lparr>total_count = 3, new = 1, updated = 0, removed = 1, unchanged = 1\<rparr>"
  by (simp add: scenarioBase_def scenarioLive_def scenarioConfig_def engine_defs)

section \<open>Classification (C1)\<close>



section \<open>Merged values (C2)\<close>

text \<open>
  Claim C2, as amended. For every row classified UPDATED, and every column name other
  than the three metadata property names (in particular every such column of the
  column union), the emitted value is the live row's value when the live row has the
  column, and the base row's value otherwise. The metadata are written after the
  spread, so a data column that bears one of their names holds the metadata instead.
\<close>

theorem merge_correct:
  assumes "r \<in> set (rows (compareDatasets H baseFile liveFile config))"
    and "isType UPDATED r"
  shows "\<exists>key baseRow liveRow.
           meta_row_id r = Some (Str key) \<and>
           Map_get (indexData H (primaryKey config) (data baseFile)) key = Some baseRow \<and>
           Map_get (indexData H (primaryKey config) (data liveFile)) key = Some liveRow \<and>
           (\<forall>col. col \<notin> set metaNames \<longrightarrow> r col = mergedValue baseRow liveRow col)"
proof -
  let ?pk = "primaryKey config" and ?ic = "ignoreCase config"
  let ?cols = "Array_from_Set (columns baseFile @ columns liveFile)"
  from row_shape [OF assms(1)] assms(2) obtain key baseRow liveRow where
    b: "lastRow H ?pk (data baseFile) key = Some baseRow" and
    l: "lastRow H ?pk (data liveFile) key = Some liveRow" and
    r: "r = withMeta (baseRow ++ liveRow) UPDATED (changedColumns H ?pk ?ic ?cols baseRow liveRow) key"
    by (auto simp: baseRowOut_def newRowOut_def split: option.splits if_splits)
  have "\<forall>col. col \<notin> set metaNames \<longrightarrow> r col = mergedValue baseRow liveRow col"
    by (simp add: r withMeta_other mergedValue_def map_add_def)
  with b l r show ?thesis
    by (simp add: Map_get_indexData)
qed

theorem merge_correct_witness:
  "withMeta ([js ''id'' \<mapsto> Str (js ''1''), js ''v'' \<mapsto> Str (js ''x'')] ++ [js ''id'' \<mapsto> Str (js ''1''), js ''v'' \<mapsto> Str (js ''y'')])
     UPDATED [js ''v''] (js ''1'') \<in> set (rows (compareDatasets exHost exBase exLive exConfig)) \<and>
   isType UPDATED
     (withMeta ([js ''id'' \<mapsto> Str (js ''1''), js ''v'' \<mapsto> Str (js ''x'')] ++ [js ''id'' \<mapsto> Str (js ''1''), js ''v'' \<mapsto> Str (js ''y'')])
     UPDATED [js ''v''] (js ''1'') :: exValue RowData) \<and>
   Map_get (indexData exHost (js ''id'') (data exBase)) (js ''1'') =
     Some [js ''id'' \<mapsto> Str (js ''1''), js ''v'' \<mapsto> Str (js ''x'')] \<and>
   Map_get (indexData exHost (js ''id'') (data exLive)) (js ''1'') =
     Some [js ''id'' \<mapsto> Str (js ''1''), js ''v'' \<mapsto> Str (js ''y'')] \<and>
   (withMeta ([js ''id'' \<mapsto> Str (js ''1''), js ''v'' \<mapsto> Str (js ''x'')] ++ [js ''id'' \<mapsto> Str (js ''1''), js ''v'' \<mapsto> Str (js ''y'')])
     UPDATED [js ''v''] (js ''1'') :: exValue RowData) (js ''v'') =
   mergedValue [js ''id'' \<mapsto> Str (js ''1''), js ''v'' \<mapsto> Str (js ''x'')]
     [js ''id'' \<mapsto> Str (js ''1''), js ''v'' \<mapsto> Str (js ''y'')] (js ''v'')"
proof -
  let ?r = "withMeta ([js ''id'' \<mapsto> Str (js ''1''), js ''v'' \<mapsto> Str (js ''x'')] ++ [js ''id'' \<mapsto> Str (js ''1''), js ''v'' \<mapsto> Str (js ''y'')])
     UPDATED [js ''v''] (js ''1'') :: exValue RowData"
  have mem: "?r \<in> set (rows (compareDatasets exHost exBase exLive exConfig))"
    by (simp add: ex_rows)
  have upd: "isType UPDATED ?r"
    by simp
  have b: "Map_get (indexData exHost (js ''id'') (data exBase)) (js ''1'') =
             Some [js ''id'' \<mapsto> Str (js ''1''), js ''v'' \<mapsto> Str (js ''x'')]"
    by (simp add: exBase_def engine_defs)
  have l: "Map_get (indexData exHost (js ''id'') (data exLive)) (js ''1'') =
             Some [js ''id'' \<mapsto> Str (js ''1''), js ''v'' \<mapsto> Str (js ''y'')]"
    by (simp add: exLive_def engine_defs)
  have v: "js ''v'' \<notin> set metaNames"
    by (simp add: metaNames_def)
  from merge_correct [OF mem upd] obtain key baseRow liveRow where
    k: "meta_row_id ?r = Some (Str key)" and
    b': "Map_get (indexData exHost (primaryKey exConfig) (data exBase)) key = Some baseRow" and
    l': "Map_get (indexData exHost (primaryKey exConfig) (data exLive)) key = Some liveRow" and
    every: "\<forall>col. col \<notin> set metaNames \<longrightarrow> ?r col = mergedValue baseRow liveRow col"
    by blast
  from k have key: "key = js ''1''"
    by simp
  from b' b key have "baseRow = [js ''id'' \<mapsto> Str (js ''1''), js ''v'' \<mapsto> Str (js ''x'')]"
    by (simp add: exConfig_def)
  moreover from l' l key have "liveRow = [js ''id'' \<mapsto> Str (js ''1''), js ''v'' \<mapsto> Str (js ''y'')]"
    by (simp add: exConfig_def)
  ultimately have "\<forall>col. col \<notin> set metaNames \<longrightarrow>
          ?r col = mergedValue [js ''id'' \<mapsto> Str (js ''1''), js ''v'' \<mapsto> Str (js ''x'')]
                     [js ''id'' \<mapsto> Str (js ''1''), js ''v'' \<mapsto> Str (js ''y'')] col"
    using every by (simp only:)
  with v have "?r (js ''v'') =
          mergedValue [js ''id'' \<mapsto> Str (js ''1''), js ''v'' \<mapsto> Str (js ''x'')]
            [js ''id'' \<mapsto> Str (js ''1''), js ''v'' \<mapsto> Str (js ''y'')] (js ''v'')"
    by blast
  with b l mem upd show ?thesis
    by (simp only: simp_thms)
qed

text \<open>
  The claim as stated, for each column of the column union, fails on a column named
  \<^verbatim>\<open>_meta_row_id\<close>: the row is UPDATED, the column is in the column union,
  the live row holds \<open>b\<close> there, and the emitted row holds the key \<open>1\<close>.
\<close>

theorem merge_counterexample:
  "isType UPDATED (hd (rows (compareDatasets exHost cxMergeBase cxMergeLive exConfig))) \<and>
   js ''_meta_row_id'' \<in> set (allColumns (compareDatasets exHost cxMergeBase cxMergeLive exConfig)) \<and>
   Map_get (indexData exHost (js ''id'') (data cxMergeBase)) (js ''1'') =
     Some [js ''id'' \<mapsto> Str (js ''1''), js ''_meta_row_id'' \<mapsto> Str (js ''a'')] \<and>
   Map_get (indexData exHost (js ''id'') (data cxMergeLive)) (js ''1'') =
     Some [js ''id'' \<mapsto> Str (js ''1''), js ''_meta_row_id'' \<mapsto> Str (js ''b'')] \<and>
   mergedValue [js ''id'' \<mapsto> Str (js ''1''), js ''_meta_row_id'' \<mapsto> Str (js ''a'')]
     [js ''id'' \<mapsto> Str (js ''1''), js ''_meta_row_id'' \<mapsto> Str (js ''b'')] (js ''_meta_row_id'') =
     Some (Str (js ''b'') :: exValue jsval) \<and>
   hd (rows (compareDatasets exHost cxMergeBase cxMergeLive exConfig)) (js ''_meta_row_id'') =
     Some (Str (js ''1''))"
  by (simp add: cxMergeBase_def cxMergeLive_def exConfig_def engine_defs mergedValue_def
      withMeta_def isType_def meta_change_type_def)

section \<open>Statistics (C3)\<close>

text \<open>
  Claim C3. For every pair of datasets and every configuration, the returned
  statistics satisfy total = new + updated + removed + unchanged, the total equals
  the length of the emitted row sequence, and none of the five counters is negative.
\<close>

theorem stat_identity:
  "total_count (stats (compareDatasets H baseFile liveFile config)) =
     new (stats (compareDatasets H baseFile liveFile config)) +
     updated (stats (compareDatasets H baseFile liveFile config)) +
     removed (stats (compareDatasets H baseFile liveFile config)) +
     unchanged (stats (compareDatasets H baseFile liveFile config)) \<and>
   total_count (stats (compareDatasets H baseFile liveFile config)) =
     int (length (rows (compareDatasets H baseFile liveFile config))) \<and>
   0 \<le> total_count (stats (compareDatasets H baseFile liveFile config)) \<and>
   0 \<le> new (stats (compareDatasets H baseFile liveFile config)) \<and>
   0 \<le> updated (stats (compareDatasets H baseFile liveFile config)) \<and>
   0 \<le> removed (stats (compareDatasets H baseFile liveFile config)) \<and>
   0 \<le> unchanged (stats (compareDatasets H baseFile liveFile config))"
proof -
  let ?res = "compareDatasets H baseFile liveFile config"
  have total: "total_count (stats ?res) = int (length (rows ?res))"
    by (simp add: compareDatasets_def Let_def)
  have c: "counts (rows ?res) (stats ?res)"
    by (rule counts_compareDatasets)
  have "length (rows ?res) =
          length (filter (isType NEW) (rows ?res)) + length (filter (isType UPDATED) (rows ?res)) +
          length (filter (isType REMOVED) (rows ?res)) + length (filter (isType UNCHANGED) (rows ?res))"
    by (rule length_by_type) (rule typed_rows)
  with c total show ?thesis
    by (simp add: counts_def)
qed

section \<open>Changed columns (C4)\<close>

text \<open>
  Claim C4. For every emitted row, \<^verbatim>\<open>_meta_changed_columns\<close> is a list
  that is non-empty exactly when the row is UPDATED (so it is empty for every NEW,
  REMOVED and UNCHANGED row), and it never contains the primary-key column name.
\<close>

theorem changed_columns_invariant:
  assumes "r \<in> set (rows (compareDatasets H baseFile liveFile config))"
  shows "\<exists>cs. meta_changed_columns r = Some (Arr cs) \<and>
           (cs \<noteq> [] \<longleftrightarrow> isType UPDATED r) \<and>
           (isType NEW r \<or> isType REMOVED r \<or> isType UNCHANGED r \<longrightarrow> cs = []) \<and>
           primaryKey config \<notin> set cs"
  using row_shape [OF assms]
  by (auto simp: baseRowOut_def newRowOut_def changedColumns_def split: option.splits)

theorem changed_columns_invariant_witness:
  "withMeta ([js ''id'' \<mapsto> Str (js ''1''), js ''v'' \<mapsto> Str (js ''x'')] ++ [js ''id'' \<mapsto> Str (js ''1''), js ''v'' \<mapsto> Str (js ''y'')])
     UPDATED [js ''v''] (js ''1'') \<in> set (rows (compareDatasets exHost exBase exLive exConfig)) \<and>
   (\<exists>cs. meta_changed_columns
           (withMeta ([js ''id'' \<mapsto> Str (js ''1''), js ''v'' \<mapsto> Str (js ''x'')] ++ [js ''id'' \<mapsto> Str (js ''1''), js ''v'' \<mapsto> Str (js ''y'')])
     UPDATED [js ''v''] (js ''1'') :: exValue RowData) = Some (Arr cs) \<and>
         cs \<noteq> [] \<and> js ''id'' \<notin> set cs)"
proof -
  let ?r = "withMeta ([js ''id'' \<mapsto> Str (js ''1''), js ''v'' \<mapsto> Str (js ''x'')] ++ [js ''id'' \<mapsto> Str (js ''1''), js ''v'' \<mapsto> Str (js ''y'')])
     UPDATED [js ''v''] (js ''1'') :: exValue RowData"
  have mem: "?r \<in> set (rows (compareDatasets exHost exBase exLive exConfig))"
    by (simp add: ex_rows)
  from changed_columns_invariant [OF mem] mem show ?thesis
    by (auto simp: exConfig_def)
qed

section \<open>One row per key (C5)\<close>

text \<open>
  Claim C5, as amended. Every key string of a valid-keyed row of either dataset has
  exactly one row in the result. Each index holds, for a key, the last valid-keyed
  row of its dataset with that key (\<open>lastRow\<close>, see \<open>lastRow_is_last\<close>), and the
  row emitted for the key is computed from these indexed rows alone. Earlier rows
  with the same key contribute no row and no value: without them the result holds
  the same set of rows. They do fix where the row of their key stands: the rows of
  the result stand in the order in which their keys first occur among the valid-keyed
  rows, base keys first and then the keys of the live dataset alone (last conjunct).
\<close>

theorem partition_completeness:
  assumes "k \<in> set (validKeys H (primaryKey config) (data baseFile)) \<union>
               set (validKeys H (primaryKey config) (data liveFile))"
  shows "(\<exists>r. filter (\<lambda>r. meta_row_id r = Some (Str k))
                 (rows (compareDatasets H baseFile liveFile config)) = [r] \<and>
            (case Map_get (indexData H (primaryKey config) (data baseFile)) k of
               Some baseRow \<Rightarrow>
                 r = baseRowOut H (primaryKey config) (ignoreCase config)
                       (allColumns (compareDatasets H baseFile liveFile config))
                       (Map_get (indexData H (primaryKey config) (data liveFile)) k) (k, baseRow)
             | None \<Rightarrow>
                 (case Map_get (indexData H (primaryKey config) (data liveFile)) k of
                    Some liveRow \<Rightarrow> r = newRowOut (k, liveRow)
                  | None \<Rightarrow> False))) \<and>
         Map_get (indexData H (primaryKey config) (data baseFile)) k =
           lastRow H (primaryKey config) (data baseFile) k \<and>
         Map_get (indexData H (primaryKey config) (data liveFile)) k =
           lastRow H (primaryKey config) (data liveFile) k \<and>
         set (rows (compareDatasets H (withoutShadowed H (primaryKey config) baseFile)
                      (withoutShadowed H (primaryKey config) liveFile) config)) =
         set (rows (compareDatasets H baseFile liveFile config)) \<and>
         map meta_row_id (rows (compareDatasets H baseFile liveFile config)) =
           map (\<lambda>k. Some (Str k))
             (firstOccurrences (validKeys H (primaryKey config) (data baseFile)) @
              filter (\<lambda>k. k \<notin> set (validKeys H (primaryKey config) (data baseFile)))
                (firstOccurrences (validKeys H (primaryKey config) (data liveFile))))"
proof -
  from assms have "lastRow H (primaryKey config) (data baseFile) k \<noteq> None \<or>
                   lastRow H (primaryKey config) (data liveFile) k \<noteq> None"
    by (simp add: lastRow_Some_ex)
  then have "(\<exists>r. filter (\<lambda>r. meta_row_id r = Some (Str k))
                 (rows (compareDatasets H baseFile liveFile config)) = [r] \<and>
            (case Map_get (indexData H (primaryKey config) (data baseFile)) k of
               Some baseRow \<Rightarrow>
                 r = baseRowOut H (primaryKey config) (ignoreCase config)
                       (allColumns (compareDatasets H baseFile liveFile config))
                       (Map_get (indexData H (primaryKey config) (data liveFile)) k) (k, baseRow)
             | None \<Rightarrow>
                 (case Map_get (indexData H (primaryKey config) (data liveFile)) k of
                    Some liveRow \<Rightarrow> r = newRowOut (k, liveRow)
                  | None \<Rightarrow> False)))"
    by (auto simp: rows_with_key Map_get_indexData allColumns_compareDatasets
        split: option.splits)
  then show ?thesis
    using ids_compareDatasets [of H baseFile liveFile config]
      rows_set_withoutShadowed [of H config baseFile liveFile]
    by (simp only: Map_get_indexData)
qed

text \<open>
  In the live example the key \<open>1\<close> occurs twice; the row emitted for it is built
  from the second occurrence.
\<close>

theorem partition_completeness_witness:
  "js ''1'' \<in> set (validKeys exHost (js ''id'') (data exBase)) \<union>
             set (validKeys exHost (js ''id'') (data exLive)) \<and>
   filter (\<lambda>r. meta_row_id r = Some (Str (js ''1'')))
     (rows (compareDatasets exHost exBase exLive exConfig)) =
     [withMeta ([js ''id'' \<mapsto> Str (js ''1''), js ''v'' \<mapsto> Str (js ''x'')] ++ [js ''id'' \<mapsto> Str (js ''1''), js ''v'' \<mapsto> Str (js ''y'')])
        UPDATED [js ''v''] (js ''1'')] \<and>
   lastRow exHost (js ''id'') (data exLive) (js ''1'') =
     Some [js ''id'' \<mapsto> Str (js ''1''), js ''v'' \<mapsto> Str (js ''y'')] \<and>
   map meta_row_id (rows (compareDatasets exHost exBase exLive exConfig)) =
     [Some (Str (js ''1'')), Some (Str (js ''2'')), Some (Str (js ''3'')), Some (Str (js ''4''))]"
proof -
  have k: "js ''1'' \<in> set (validKeys exHost (primaryKey exConfig) (data exBase)) \<union>
                    set (validKeys exHost (primaryKey exConfig) (data exLive))"
    by (simp add: exBase_def exConfig_def validKeys_def validKey_def keyOf_def getProp_def)
  have l: "Map_get (indexData exHost (js ''id'') (data exLive)) (js ''1'') =
             Some [js ''id'' \<mapsto> Str (js ''1''), js ''v'' \<mapsto> Str (js ''y'')]"
    by (simp add: exLive_def engine_defs)
  have f: "filter (\<lambda>r. meta_row_id r = Some (Str (js ''1'')))
             (rows (compareDatasets exHost exBase exLive exConfig)) =
     [withMeta ([js ''id'' \<mapsto> Str (js ''1''), js ''v'' \<mapsto> Str (js ''x'')] ++ [js ''id'' \<mapsto> Str (js ''1''), js ''v'' \<mapsto> Str (js ''y'')])
        UPDATED [js ''v''] (js ''1'')]"
    by (simp add: ex_rows)
  have ids: "map meta_row_id (rows (compareDatasets exHost exBase exLive exConfig)) =
     [Some (Str (js ''1'')), Some (Str (js ''2'')), Some (Str (js ''3'')), Some (Str (js ''4''))]"
    by (simp add: ex_rows)
  from partition_completeness [OF k] have
    "Map_get (indexData exHost (primaryKey exConfig) (data exLive)) (js ''1'') =
       lastRow exHost (primaryKey exConfig) (data exLive) (js ''1'')"
    by blast
  with k l f ids show ?thesis
    by (simp add: exConfig_def)
qed

text \<open>
  The claim as stated says that an earlier row with a duplicate key contributes
  nothing to the result. Deleting the shadowed first row of this dataset, and nothing
  else, changes the order of the result.
\<close>

theorem shadowed_rows_counterexample:
  "indexedRows exHost (js ''id'') (data cxDupBase) = tl (data cxDupBase) \<and>
   map meta_row_id (rows (compareDatasets exHost cxDupBase cxOrderLive exConfig)) =
     [Some (Str (js ''k1'')), Some (Str (js ''k2''))] \<and>
   map meta_row_id
     (rows (compareDatasets exHost (cxDupBase\<lparr>data := tl (data cxDupBase)\<rparr>) cxOrderLive exConfig)) =
     [Some (Str (js ''k2'')), Some (Str (js ''k1''))]"
  by (simp add: cxDupBase_def cxOrderLive_def exConfig_def engine_defs
      validKeys_def validKey_def keyOf_def)

section \<open>Exclusion of rows with an empty key (C6)\<close>

text \<open>
  Claim C6. A row whose value under the primary-key column is absent, null or the
  empty string is excluded from the comparison. The engine excludes a row exactly
  when \<^verbatim>\<open>row[primaryKey]\<close> reads \<^verbatim>\<open>undefined\<close>, \<^verbatim>\<open>null\<close> or the
  empty string (\<open>empty_key_exclusion\<close>). The read also finds the properties that a
  row inherits from \<^verbatim>\<open>Object.prototype\<close>, so the claim fails on the code when
  the primary-key column bears the name of one: below, the second base row has no
  value under the primary key \<open>constructor\<close>, and it is indexed under the string
  form of the inherited function and emitted as REMOVED.
\<close>

theorem inherited_key_emitted:
  "(data cxProtoBase ! 1) (js ''constructor'') = None \<and>
   indexData exHost (js ''constructor'') (data cxProtoBase) =
     [(js ''k1'', data cxProtoBase ! 0),
      (js ''function Object() { [native code] }'', data cxProtoBase ! 1)] \<and>
   rows (compareDatasets exHost cxProtoBase cxProtoLive cxProtoConfig) =
     [withMeta (data cxProtoBase ! 0) REMOVED [] (js ''k1''),
      withMeta (data cxProtoBase ! 1) REMOVED [] (js ''function Object() { [native code] }'')]"
  by (simp add: cxProtoBase_def cxProtoLive_def cxProtoConfig_def engine_defs)

section \<open>Normalization (C7)\<close>

text \<open>
  Claim C7. For every value and flag, \<open>normalizeValue\<close> returns the empty string
  when the value is \<^verbatim>\<open>undefined\<close> (absent) or \<^verbatim>\<open>null\<close>. For any
  other value \<open>v\<close> the result without \<open>ignoreCase\<close> is \<^verbatim>\<open>String(v)\<close> with
  its leading and trailing white space stripped: \<^verbatim>\<open>String(v)\<close> is a run of
  white space, the result, and a run of white space; the result neither starts nor
  ends with white space; and it is the only string of which both hold. The result
  with \<open>ignoreCase\<close> is the lower-casing of the result without. A number whose string
  form is \<open>42\<close>, the string \<open>42\<close> and the string \<open> 42 \<close> have the same normal form
  for either flag. (The white space is that of the language: the last conjunct strips
  a no-break space and an ideographic space.)
\<close>

theorem normalize_spec:
  "normalizeValue H Undefined ic = [] \<and>
   normalizeValue H Null ic = [] \<and>
   (v \<noteq> Undefined \<and> v \<noteq> Null \<longrightarrow>
      (\<exists>pre post. String_js H v = pre @ normalizeValue H v False @ post \<and>
         list_all isWhiteSpace pre \<and> list_all isWhiteSpace post) \<and>
      (normalizeValue H v False \<noteq> [] \<longrightarrow>
         \<not> isWhiteSpace (hd (normalizeValue H v False)) \<and>
         \<not> isWhiteSpace (last (normalizeValue H v False))) \<and>
      (String_js H v = before @ t @ after \<and>
       list_all isWhiteSpace before \<and> list_all isWhiteSpace after \<and>
       (t = [] \<or> \<not> isWhiteSpace (hd t) \<and> \<not> isWhiteSpace (last t)) \<longrightarrow>
         normalizeValue H v False = t) \<and>
      normalizeValue H v True = toLowerCase H (normalizeValue H v False)) \<and>
   (String_other H n = js ''42'' \<longrightarrow>
      normalizeValue H (Other n) ic = normalizeValue H (Str (js ''42'')) ic \<and>
      normalizeValue H (Str (js '' 42 '')) ic = normalizeValue H (Str (js ''42'')) ic \<and>
      normalizeValue H (Other n) False = js ''42'') \<and>
   normalizeValue H (Str [0x00A0, 0x0034, 0x0032, 0x3000]) False = [0x0034, 0x0032]"
proof -
  have nul: "normalizeValue H Undefined ic = [] \<and> normalizeValue H Null ic = []"
    by (simp add: normalizeValue_def)
  have other: "(\<exists>pre post. String_js H v = pre @ normalizeValue H v False @ post \<and>
         list_all isWhiteSpace pre \<and> list_all isWhiteSpace post) \<and>
      (normalizeValue H v False \<noteq> [] \<longrightarrow>
         \<not> isWhiteSpace (hd (normalizeValue H v False)) \<and>
         \<not> isWhiteSpace (last (normalizeValue H v False))) \<and>
      (String_js H v = before @ t @ after \<and>
       list_all isWhiteSpace before \<and> list_all isWhiteSpace after \<and>
       (t = [] \<or> \<not> isWhiteSpace (hd t) \<and> \<not> isWhiteSpace (last t)) \<longrightarrow>
         normalizeValue H v False = t) \<and>
      normalizeValue H v True = toLowerCase H (normalizeValue H v False)"
    if v: "v \<noteq> Undefined" "v \<noteq> Null"
  proof -
    have f: "normalizeValue H v False = trim (String_js H v)"
      and g: "normalizeValue H v True = toLowerCase H (trim (String_js H v))"
      using v by (simp_all add: normalizeValue_value)
    show ?thesis
      unfolding f g
      using trim_decomposition [of "String_js H v"] trim_ends [of "String_js H v"]
        trim_unique [of "String_js H v" before t after]
      by blast
  qed
  have t42: "trim (js '' 42 '') = js ''42''" "trim (js ''42'') = js ''42''"
    by (simp_all add: trim_def isWhiteSpace_def js_def)
  have ex: "normalizeValue H (Other n) ic = normalizeValue H (Str (js ''42'')) ic \<and>
      normalizeValue H (Str (js '' 42 '')) ic = normalizeValue H (Str (js ''42'')) ic \<and>
      normalizeValue H (Other n) False = js ''42''"
    if "String_other H n = js ''42''"
    using that by (simp add: normalizeValue_def t42)
  have nbsp: "normalizeValue H (Str [0x00A0, 0x0034, 0x0032, 0x3000]) False = [0x0034, 0x0032]"
    by (simp add: normalizeValue_def trim_def isWhiteSpace_def)
  from nul other ex nbsp show ?thesis
    by blast
qed

theorem normalize_spec_witness:
  "Str (js '' Ab c '') \<noteq> (Undefined :: exValue jsval) \<and>
   Str (js '' Ab c '') \<noteq> (Null :: exValue jsval) \<and>
   js '' Ab c '' = js '' '' @ js ''Ab c'' @ js '' '' \<and>
   list_all isWhiteSpace (js '' '') \<and>
   \<not> isWhiteSpace (hd (js ''Ab c'')) \<and>
   \<not> isWhiteSpace (last (js ''Ab c'')) \<and>
   normalizeValue exHost (Str (js '' Ab c '')) False = js ''Ab c'' \<and>
   String_other exHost Number42 = js ''42'' \<and>
   normalizeValue exHost (Other Number42) False = js ''42'' \<and>
   normalizeValue exHost (Other Number42) True = normalizeValue exHost (Str (js '' 42 '')) True"
proof -
  have d: "js '' Ab c '' = js '' '' @ js ''Ab c'' @ js '' ''"
    by (simp add: js_def)
  have w: "list_all isWhiteSpace (js '' '')"
    by (simp add: js_def isWhiteSpace_def)
  have e: "\<not> isWhiteSpace (hd (js ''Ab c'')) \<and> \<not> isWhiteSpace (last (js ''Ab c''))"
    by (simp add: js_def isWhiteSpace_def)
  have n: "String_other exHost Number42 = js ''42''"
    by (simp add: exHost_def exString_def)
  have s: "String_js exHost (Str (js '' Ab c '')) = js '' '' @ js ''Ab c'' @ js '' ''"
    using d by simp
  from normalize_spec [where H = exHost and v = "Str (js '' Ab c '')" and before = "js '' ''"
      and t = "js ''Ab c''" and after = "js '' ''" and n = Number42 and ic = True]
    s w e n
  have "normalizeValue exHost (Str (js '' Ab c '')) False = js ''Ab c''"
    and "normalizeValue exHost (Other Number42) False = js ''42''"
    and "normalizeValue exHost (Other Number42) True = normalizeValue exHost (Str (js '' 42 '')) True"
    by simp_all
  with d w e n show ?thesis
    by simp
qed

section \<open>Row order (C8)\<close>

text \<open>
  Claim C8, as amended. The result lists first the rows of the base index (REMOVED,
  UPDATED, UNCHANGED), then the NEW rows. Within each part the rows stand in the order
  in which their keys first occur among the valid-keyed rows of the dataset (base for
  the first part, live for the second). When no key occurs twice in a dataset this is
  the dataset's row order.
\<close>

theorem row_order:
  "map meta_row_id (rows (compareDatasets H baseFile liveFile config)) =
     map (\<lambda>k. Some (Str k))
       (firstOccurrences (validKeys H (primaryKey config) (data baseFile)) @
        filter (\<lambda>k. k \<notin> set (validKeys H (primaryKey config) (data baseFile)))
          (firstOccurrences (validKeys H (primaryKey config) (data liveFile)))) \<and>
   list_all (\<lambda>r. isType REMOVED r \<or> isType UPDATED r \<or> isType UNCHANGED r)
     (take (length (firstOccurrences (validKeys H (primaryKey config) (data baseFile))))
        (rows (compareDatasets H baseFile liveFile config))) \<and>
   list_all (isType NEW)
     (drop (length (firstOccurrences (validKeys H (primaryKey config) (data baseFile))))
        (rows (compareDatasets H baseFile liveFile config))) \<and>
   (distinct (validKeys H (primaryKey config) (data baseFile)) \<and>
    distinct (validKeys H (primaryKey config) (data liveFile)) \<longrightarrow>
      map meta_row_id (rows (compareDatasets H baseFile liveFile config)) =
        map (\<lambda>r. Some (Str (keyOf H (primaryKey config) r)))
          (indexedRows H (primaryKey config) (data baseFile) @
           filter (\<lambda>r. keyOf H (primaryKey config) r \<notin> set (validKeys H (primaryKey config) (data baseFile)))
             (indexedRows H (primaryKey config) (data liveFile))))"
proof -
  let ?pk = "primaryKey config"
  let ?B = "indexData H ?pk (data baseFile)"
  have n: "length (firstOccurrences (validKeys H ?pk (data baseFile))) = length ?B"
    using keys_indexData_first [of H ?pk "data baseFile"] by (metis length_map)
  have first: "list_all (\<lambda>r. isType REMOVED r \<or> isType UPDATED r \<or> isType UNCHANGED r)
     (take (length ?B) (rows (compareDatasets H baseFile liveFile config)))"
    by (simp add: rows_compareDatasets list_all_iff isType_baseRowOut split: option.splits)
  have second: "list_all (isType NEW)
     (drop (length ?B) (rows (compareDatasets H baseFile liveFile config)))"
    by (simp add: rows_compareDatasets list_all_iff isType_newRowOut)
  have uniq: "map meta_row_id (rows (compareDatasets H baseFile liveFile config)) =
        map (\<lambda>r. Some (Str (keyOf H ?pk r)))
          (indexedRows H ?pk (data baseFile) @
           filter (\<lambda>r. keyOf H ?pk r \<notin> set (validKeys H ?pk (data baseFile)))
             (indexedRows H ?pk (data liveFile)))"
    if d: "distinct (validKeys H ?pk (data baseFile))" "distinct (validKeys H ?pk (data liveFile))"
  proof -
    have "map (\<lambda>r. Some (Str (keyOf H ?pk r)))
          (indexedRows H ?pk (data baseFile) @
           filter (\<lambda>r. keyOf H ?pk r \<notin> set (validKeys H ?pk (data baseFile)))
             (indexedRows H ?pk (data liveFile))) =
          map (\<lambda>k. Some (Str k))
            (map (keyOf H ?pk) (indexedRows H ?pk (data baseFile)) @
             filter (\<lambda>k. k \<notin> set (validKeys H ?pk (data baseFile)))
               (map (keyOf H ?pk) (indexedRows H ?pk (data liveFile))))"
      by (simp add: filter_map comp_def)
    also have "\<dots> = map (\<lambda>k. Some (Str k))
            (firstOccurrences (validKeys H ?pk (data baseFile)) @
             filter (\<lambda>k. k \<notin> set (validKeys H ?pk (data baseFile)))
               (firstOccurrences (validKeys H ?pk (data liveFile))))"
      using d by (simp only: keys_indexedRows firstOccurrences_distinct distinct_remdups_id)
    finally have e: "map (\<lambda>r. Some (Str (keyOf H ?pk r)))
          (indexedRows H ?pk (data baseFile) @
           filter (\<lambda>r. keyOf H ?pk r \<notin> set (validKeys H ?pk (data baseFile)))
             (indexedRows H ?pk (data liveFile))) =
          map (\<lambda>k. Some (Str k))
            (firstOccurrences (validKeys H ?pk (data baseFile)) @
             filter (\<lambda>k. k \<notin> set (validKeys H ?pk (data baseFile)))
               (firstOccurrences (validKeys H ?pk (data liveFile))))" .
    show ?thesis
      by (simp only: ids_compareDatasets e)
  qed
  from first second uniq show ?thesis
    unfolding n by (simp only: ids_compareDatasets) blast
qed

theorem row_order_witness:
  "distinct (validKeys exHost (js ''id'') (data exBase)) \<and>
   distinct (validKeys exHost (js ''id'') (data cxOrderLive)) \<and>
   map meta_row_id (rows (compareDatasets exHost exBase cxOrderLive exConfig)) =
     map (\<lambda>r. Some (Str (keyOf exHost (js ''id'') r))) (indexedRows exHost (js ''id'') (data exBase)) \<and>
   map meta_row_id (rows (compareDatasets exHost exBase cxOrderLive exConfig)) =
     [Some (Str (js ''1'')), Some (Str (js ''2'')), Some (Str (js ''3''))]"
proof -
  have b: "validKeys exHost (js ''id'') (data exBase) = [js ''1'', js ''2'', js ''3'']"
    by (simp add: exBase_def validKeys_def validKey_def keyOf_def getProp_def)
  have l: "validKeys exHost (js ''id'') (data cxOrderLive) = []"
    by (simp add: cxOrderLive_def validKeys_def)
  have j: "indexedRows exHost (js ''id'') (data cxOrderLive) = []"
    by (simp add: cxOrderLive_def)
  have pk: "primaryKey exConfig = (js ''id'')"
    by (simp add: exConfig_def)
  have d: "distinct (validKeys exHost (primaryKey exConfig) (data exBase)) \<and>
           distinct (validKeys exHost (primaryKey exConfig) (data cxOrderLive))"
    by (simp add: pk b l)
  from row_order [of exHost exBase cxOrderLive exConfig] d
  have "map meta_row_id (rows (compareDatasets exHost exBase cxOrderLive exConfig)) =
          map (\<lambda>r. Some (Str (keyOf exHost (primaryKey exConfig) r)))
            (indexedRows exHost (primaryKey exConfig) (data exBase) @
             filter (\<lambda>r. keyOf exHost (primaryKey exConfig) r \<notin> set (validKeys exHost (primaryKey exConfig) (data exBase)))
               (indexedRows exHost (primaryKey exConfig) (data cxOrderLive)))"
    by blast
  then have 1: "map meta_row_id (rows (compareDatasets exHost exBase cxOrderLive exConfig)) =
          map (\<lambda>r. Some (Str (keyOf exHost (js ''id'') r))) (indexedRows exHost (js ''id'') (data exBase))"
    by (simp add: pk j)
  have "map (keyOf exHost (js ''id'')) (indexedRows exHost (js ''id'') (data exBase)) = [js ''1'', js ''2'', js ''3'']"
    by (simp add: keys_indexedRows b)
  then have 2: "map (\<lambda>r. Some (Str (keyOf exHost (js ''id'') r))) (indexedRows exHost (js ''id'') (data exBase)) =
          [Some (Str (js ''1'')), Some (Str (js ''2'')), Some (Str (js ''3''))]"
    by (simp add: map_eq_Cons_conv)
  from d 1 2 show ?thesis
    by (simp only: pk)
qed

text \<open>
  The claim as stated, dataset row order, fails when a key occurs twice: the index
  keeps the entry at the place of the first occurrence and the row of the last. The
  first emitted row is built from the third base row and the second from the second
  base row, while the indexed rows in dataset order are the second and the third.
\<close>

theorem row_order_counterexample:
  "rows (compareDatasets exHost cxOrderBase cxOrderLive exConfig) =
     [withMeta (data cxOrderBase ! 2) REMOVED [] (js ''1''),
      withMeta (data cxOrderBase ! 1) REMOVED [] (js ''2'')] \<and>
   indexedRows exHost (js ''id'') (data cxOrderBase) = [data cxOrderBase ! 1, data cxOrderBase ! 2] \<and>
   meta_row_id (rows (compareDatasets exHost cxOrderBase cxOrderLive exConfig) ! 0) = Some (Str (js ''1'')) \<and>
   keyOf exHost (js ''id'') (indexedRows exHost (js ''id'') (data cxOrderBase) ! 0) = (js ''2'')"
  by (simp add: cxOrderBase_def cxOrderLive_def exConfig_def engine_defs
      validKeys_def validKey_def keyOf_def getProp_def)

section \<open>The \<open>ignoreCase\<close> flag and key matching (C9)\<close>

text \<open>
  Claim C9. Two runs on the same datasets and primary key that differ only in
  \<open>ignoreCase\<close> index the same keys (\<open>indexData\<close> does not take the flag), emit
  the same sequence of keys, match the same keys (the same positions hold rows that
  are UPDATED or UNCHANGED), emit the same NEW rows and the same REMOVED rows, and
  report the same \<open>new\<close> and \<open>removed\<close> counts.
\<close>

theorem ignoreCase_key_matching:
  "indexData H (primaryKey (config\<lparr>ignoreCase := True\<rparr>)) (data baseFile) =
     indexData H (primaryKey (config\<lparr>ignoreCase := False\<rparr>)) (data baseFile) \<and>
   indexData H (primaryKey (config\<lparr>ignoreCase := True\<rparr>)) (data liveFile) =
     indexData H (primaryKey (config\<lparr>ignoreCase := False\<rparr>)) (data liveFile) \<and>
   map meta_row_id (rows (compareDatasets H baseFile liveFile (config\<lparr>ignoreCase := True\<rparr>))) =
     map meta_row_id (rows (compareDatasets H baseFile liveFile (config\<lparr>ignoreCase := False\<rparr>))) \<and>
   map (\<lambda>r. isType UPDATED r \<or> isType UNCHANGED r)
     (rows (compareDatasets H baseFile liveFile (config\<lparr>ignoreCase := True\<rparr>))) =
   map (\<lambda>r. isType UPDATED r \<or> isType UNCHANGED r)
     (rows (compareDatasets H baseFile liveFile (config\<lparr>ignoreCase := False\<rparr>))) \<and>
   filter (isType NEW) (rows (compareDatasets H baseFile liveFile (config\<lparr>ignoreCase := True\<rparr>))) =
     filter (isType NEW) (rows (compareDatasets H baseFile liveFile (config\<lparr>ignoreCase := False\<rparr>))) \<and>
   filter (isType REMOVED) (rows (compareDatasets H baseFile liveFile (config\<lparr>ignoreCase := True\<rparr>))) =
     filter (isType REMOVED) (rows (compareDatasets H baseFile liveFile (config\<lparr>ignoreCase := False\<rparr>))) \<and>
   new (stats (compareDatasets H baseFile liveFile (config\<lparr>ignoreCase := True\<rparr>))) =
     new (stats (compareDatasets H baseFile liveFile (config\<lparr>ignoreCase := False\<rparr>))) \<and>
   removed (stats (compareDatasets H baseFile liveFile (config\<lparr>ignoreCase := True\<rparr>))) =
     removed (stats (compareDatasets H baseFile liveFile (config\<lparr>ignoreCase := False\<rparr>)))"
proof -
  let ?t = "compareDatasets H baseFile liveFile (config\<lparr>ignoreCase := True\<rparr>)"
  let ?f = "compareDatasets H baseFile liveFile (config\<lparr>ignoreCase := False\<rparr>)"
  have ids: "map meta_row_id (rows ?t) = map meta_row_id (rows ?f)"
    by (simp add: ids_compareDatasets)
  have matched: "map (\<lambda>r. isType UPDATED r \<or> isType UNCHANGED r) (rows ?t) =
                 map (\<lambda>r. isType UPDATED r \<or> isType UNCHANGED r) (rows ?f)"
    by (simp only: matched_rows) simp
  have new: "filter (isType NEW) (rows ?t) = filter (isType NEW) (rows ?f)"
    by (simp add: filter_NEW_rows)
  have rem: "filter (isType REMOVED) (rows ?t) = filter (isType REMOVED) (rows ?f)"
    by (simp add: filter_REMOVED_rows)
  have "counts (rows ?t) (stats ?t)" and "counts (rows ?f) (stats ?f)"
    by (rule counts_compareDatasets)+
  with new rem have "new (stats ?t) = new (stats ?f) \<and> removed (stats ?t) = removed (stats ?f)"
    by (simp add: counts_def)
  with ids matched new rem show ?thesis
    by simp
qed

section \<open>The row identifier (C10)\<close>




end
